theory Spec2Isabelle
  imports Main "HOL-Library.Word" "HOL-Library.FSet" "HOL-Library.AList" "HOL-Library.Char_ord"
    "HOL-Library.List_Lexorder"
  "HOL-Library.Sublist"
begin

unbundle bit_operations_syntax

section \<open>The Go library functions the disk maker calls\<close>

text \<open>
  A Go string is a sequence of bytes; it is modelled as a \<^typ>\<open>string\<close>, one
  \<^typ>\<open>char\<close> per byte.
\<close>

subsection \<open>strings.Split and strings.Join\<close>

text \<open>
  \<open>strings.Split(s, sep)\<close> for a separator of one byte: the pieces of \<open>s\<close> between the
  occurrences of the separator. The empty string splits into one empty piece.
\<close>

fun strings_Split :: "string \<Rightarrow> char \<Rightarrow> string list" where
  "strings_Split [] sep = [[]]"
| "strings_Split (c # cs) sep =
     (if c = sep then [] # strings_Split cs sep
      else (case strings_Split cs sep of
              [] \<Rightarrow> [[c]]
            | x # xs \<Rightarrow> (c # x) # xs))"

fun strings_Join :: "string list \<Rightarrow> string \<Rightarrow> string" where
  "strings_Join [] sep = []"
| "strings_Join [x] sep = x"
| "strings_Join (x # y # ys) sep = x @ sep @ strings_Join (y # ys) sep"

subsection \<open>strings.TrimSpace\<close>

text \<open>
  \<open>strings.TrimSpace\<close> removes leading and trailing white space as Unicode defines it
  (\<open>unicode.IsSpace\<close>); the string is decoded as UTF-8. The list holds the UTF-8
  encodings of the code points with the property White_Space: U+0009 to U+000D, U+0020,
  U+0085, U+00A0, U+1680, U+2000 to U+200A, U+2028, U+2029, U+202F, U+205F, U+3000.
  A byte sequence that is not the encoding of one of them decodes to some other rune
  (possibly the error rune), which is not white space.
\<close>

definition whiteSpace :: "string list" where
  "whiteSpace =
    [[CHR 0x09], [CHR 0x0A], [CHR 0x0B], [CHR 0x0C], [CHR 0x0D], [CHR 0x20],
     [CHR 0xC2, CHR 0x85], [CHR 0xC2, CHR 0xA0],
     [CHR 0xE1, CHR 0x9A, CHR 0x80],
     [CHR 0xE2, CHR 0x80, CHR 0x80], [CHR 0xE2, CHR 0x80, CHR 0x81],
     [CHR 0xE2, CHR 0x80, CHR 0x82], [CHR 0xE2, CHR 0x80, CHR 0x83],
     [CHR 0xE2, CHR 0x80, CHR 0x84], [CHR 0xE2, CHR 0x80, CHR 0x85],
     [CHR 0xE2, CHR 0x80, CHR 0x86], [CHR 0xE2, CHR 0x80, CHR 0x87],
     [CHR 0xE2, CHR 0x80, CHR 0x88], [CHR 0xE2, CHR 0x80, CHR 0x89],
     [CHR 0xE2, CHR 0x80, CHR 0x8A],
     [CHR 0xE2, CHR 0x80, CHR 0xA8], [CHR 0xE2, CHR 0x80, CHR 0xA9],
     [CHR 0xE2, CHR 0x80, CHR 0xAF], [CHR 0xE2, CHR 0x81, CHR 0x9F],
     [CHR 0xE3, CHR 0x80, CHR 0x80]]"

definition leadingSpace :: "string \<Rightarrow> string option" where
  "leadingSpace s = find (\<lambda>w. take (length w) s = w) whiteSpace"

definition trailingSpace :: "string \<Rightarrow> string option" where
  "trailingSpace s = find (\<lambda>w. drop (length s - length w) s = w) whiteSpace"

lemma whiteSpace_nonempty: "w \<in> set whiteSpace \<Longrightarrow> w \<noteq> []"
  by (auto simp: whiteSpace_def)

lemma leadingSpace_Some:
  "leadingSpace s = Some w \<Longrightarrow> w \<in> set whiteSpace \<and> take (length w) s = w"
  by (auto simp: leadingSpace_def find_Some_iff)

lemma trailingSpace_Some:
  "trailingSpace s = Some w \<Longrightarrow> w \<in> set whiteSpace \<and> drop (length s - length w) s = w"
  by (auto simp: trailingSpace_def find_Some_iff)

lemma leadingSpace_shorter:
  assumes "leadingSpace s = Some w"
  shows "length (drop (length w) s) < length s"
proof -
  from assms have w: "w \<noteq> []" and t: "take (length w) s = w"
    using leadingSpace_Some whiteSpace_nonempty by blast+
  from t w have "s \<noteq> []" by auto
  with w show ?thesis by simp
qed

lemma trailingSpace_shorter:
  assumes "trailingSpace s = Some w"
  shows "length (take (length s - length w) s) < length s"
proof -
  from assms have w: "w \<noteq> []" and t: "drop (length s - length w) s = w"
    using trailingSpace_Some whiteSpace_nonempty by blast+
  from t w have "s \<noteq> []" by auto
  with w show ?thesis by simp
qed

function TrimLeft :: "string \<Rightarrow> string" where
  "TrimLeft s =
     (case leadingSpace s of
        None \<Rightarrow> s
      | Some w \<Rightarrow> TrimLeft (drop (length w) s))"
  by pat_completeness auto
termination
  by (relation "measure length") (auto dest: leadingSpace_shorter)

function TrimRight :: "string \<Rightarrow> string" where
  "TrimRight s =
     (case trailingSpace s of
        None \<Rightarrow> s
      | Some w \<Rightarrow> TrimRight (take (length s - length w) s))"
  by pat_completeness auto
termination
  by (relation "measure length") (auto dest: trailingSpace_shorter)

declare TrimLeft.simps [simp del] TrimRight.simps [simp del]

definition strings_TrimSpace :: "string \<Rightarrow> string" where
  "strings_TrimSpace s = TrimRight (TrimLeft s)"

subsection \<open>path.Clean, path.Join and filepath.Base\<close>

text \<open>
  \<open>path.Clean\<close> (on Unix also \<open>filepath.Clean\<close>) returns the shortest path name
  equivalent to its argument by purely lexical processing. In the words of its
  documentation it applies these rules until none applies: replace multiple slashes
  with a single slash; eliminate each \<open>.\<close> path name element; eliminate each inner
  \<open>..\<close> element along with the non-\<open>..\<close> element that precedes it; eliminate
  \<open>..\<close> elements that begin a rooted path. The result ends in a slash only if it is
  the root, and the empty string becomes \<open>.\<close>. The model reads the elements from
  left to right as the library's loop does; the elements written so far are kept in a
  list, the last one first.
\<close>

definition cleanStep :: "bool \<Rightarrow> string list \<Rightarrow> string \<Rightarrow> string list" where
  "cleanStep rooted out e =
     (if e = [] \<or> e = ''.'' then out
      else if e = ''..'' then
        (if out \<noteq> [] \<and> hd out \<noteq> ''..'' then tl out
         else if \<not> rooted then ''..'' # out
         else out)
      else e # out)"

definition path_Clean :: "string \<Rightarrow> string" where
  "path_Clean p =
     (if p = [] then ''.''
      else
        let rooted = (hd p = CHR ''/'');
            out = foldl (cleanStep rooted) [] (strings_Split p CHR ''/'');
            res = (if rooted then ''/'' else []) @ strings_Join (rev out) ''/''
        in if res = [] then ''.'' else res)"

text \<open>
  \<open>path.Join\<close> joins the elements from the first non-empty one on with slashes and
  cleans the result; it returns the empty string when every element is empty.
\<close>

definition path_Join :: "string list \<Rightarrow> string" where
  "path_Join elem =
     (case dropWhile (\<lambda>e. e = []) elem of
        [] \<Rightarrow> []
      | e # es \<Rightarrow> path_Clean (strings_Join (e # es) ''/''))"

text \<open>
  \<open>filepath.Base\<close> returns the last element of the path, after removing trailing
  slashes: \<open>.\<close> for the empty path and \<open>/\<close> for a path of slashes only.
\<close>

definition filepath_Base :: "string \<Rightarrow> string" where
  "filepath_Base p =
     (if p = [] then ''.''
      else
        let q = rev (dropWhile (\<lambda>c. c = CHR ''/'') (rev p));
            r = rev (takeWhile (\<lambda>c. c \<noteq> CHR ''/'') (rev q))
        in if r = [] then ''/'' else r)"

subsection \<open>hash/fnv and the %x verb\<close>

definition fnv32a :: "string \<Rightarrow> 32 word" where
  "fnv32a bs = foldl (\<lambda>h b. (h XOR of_char b) * 16777619) 2166136261 bs"

definition hexDigit :: "nat \<Rightarrow> char" where
  "hexDigit d = ''0123456789abcdef'' ! d"

fun hex :: "nat \<Rightarrow> string" where
  "hex n = (if n < 16 then [hexDigit n] else hex (n div 16) @ [hexDigit (n mod 16)])"

declare hex.simps [simp del]

section \<open>The disk maker\<close>

subsection \<open>Events\<close>

text \<open>
  Modelled from the spec: the event type, its constructors \<open>newEvent\<close> and
  \<open>newSuccessEvent\<close>, the reason codes and the event reporter are declared in files
  of the package that are not at hand. The spec describes an event as an immutable
  record of one outcome: kind (success or error), reason code, human message, optional
  device path; and the reporter as \<open>report(event, ownerResource)\<close>, fire and forget.
  Every call of \<open>report\<close> is recorded, in order, in the event log of the state.
\<close>

datatype eventKind = ErrorEvent | SuccessEvent

datatype eventReason =
    ErrorRunningBlockList
  | ErrorReadingBlockList
  | ErrorListingDeviceID
  | ErrorFindingMatchingDisk
  | ErrorCreatingSharedDir
  | FoundMatchingDisk

record event =
  evKind :: eventKind
  evReason :: eventReason
  evMessage :: string
  evDevice :: string

definition newEvent :: "eventReason \<Rightarrow> string \<Rightarrow> string \<Rightarrow> event" where
  "newEvent r msg disk = \<lparr>evKind = ErrorEvent, evReason = r, evMessage = msg, evDevice = disk\<rparr>"

definition newSuccessEvent :: "eventReason \<Rightarrow> string \<Rightarrow> string \<Rightarrow> event" where
  "newSuccessEvent r msg disk =
     \<lparr>evKind = SuccessEvent, evReason = r, evMessage = msg, evDevice = disk\<rparr>"

subsection \<open>The host\<close>

text \<open>
  The disk maker reads and changes the file system of its node and runs \<open>lsblk\<close>.
  What the operating system answers is not decided by the program, so the host is a
  parameter: a state \<open>'fs\<close> of the file system and, for every call the program makes,
  a function that gives the answer in a state (and the next state, for the two calls
  that change it). An error is its message; \<open>None\<close> is Go's \<open>nil\<close> error.
  The theorems hold for every host.
\<close>

record 'fs host =
  os_StatNotExist :: "'fs \<Rightarrow> string \<Rightarrow> bool"
    \<comment> \<open>\<open>os.Stat(p)\<close> returns an error for which \<open>os.IsNotExist\<close> holds\<close>
  os_OpenStat :: "'fs \<Rightarrow> string \<Rightarrow> string + bool"
    \<comment> \<open>\<open>os.Open(p)\<close> and \<open>Stat\<close> of the open file: an error, or \<open>IsDir()\<close>\<close>
  walkSymlinks :: "'fs \<Rightarrow> string \<Rightarrow> string option"
    \<comment> \<open>the link traversal of \<open>filepath.EvalSymlinks\<close>, before the final \<open>Clean\<close>\<close>
  filepath_Glob :: "'fs \<Rightarrow> string \<Rightarrow> string + string list"
  run_lsblk :: "'fs \<Rightarrow> string + string"
    \<comment> \<open>\<open>lsblk --list -o NAME,MOUNTPOINT --noheadings\<close>: an error, or its output\<close>
  os_MkdirAll :: "'fs \<Rightarrow> string \<Rightarrow> string option \<times> 'fs"
  os_Symlink :: "'fs \<Rightarrow> string \<Rightarrow> string \<Rightarrow> string option \<times> 'fs"

text \<open>The calls that may change the file system are logged in the order they are made.\<close>

datatype syscall = MkdirAll string | Symlink string string

record 'fs world =
  fs :: 'fs
  events :: "event list"
  calls :: "syscall list"

definition report :: "event \<Rightarrow> 'fs world \<Rightarrow> 'fs world" where
  "report e st = st\<lparr>events := events st @ [e]\<rparr>"

definition mkdirAll :: "'fs host \<Rightarrow> string \<Rightarrow> 'fs world \<Rightarrow> string option \<times> 'fs world" where
  "mkdirAll h p st =
     (let (err, fs') = os_MkdirAll h (fs st) p
      in (err, st\<lparr>fs := fs', calls := calls st @ [MkdirAll p]\<rparr>))"

definition symlink ::
  "'fs host \<Rightarrow> string \<Rightarrow> string \<Rightarrow> 'fs world \<Rightarrow> string option \<times> 'fs world" where
  "symlink h target link st =
     (let (err, fs') = os_Symlink h (fs st) target link
      in (err, st\<lparr>fs := fs', calls := calls st @ [Symlink target link]\<rparr>))"

text \<open>
  \<open>filepath.EvalSymlinks\<close> returns the path after the evaluation of any symbolic
  links, cleaned by \<open>Clean\<close>, or an error.
\<close>

definition filepath_EvalSymlinks :: "'fs host \<Rightarrow> 'fs \<Rightarrow> string \<Rightarrow> string option" where
  "filepath_EvalSymlinks h s p = map_option path_Clean (walkSymlinks h s p)"

subsection \<open>Data of the disk maker\<close>

definition diskByIDPath :: string where
  "diskByIDPath = ''/dev/disk/by-id/*''"

definition rootfsDir :: string where
  "rootfsDir = ''/rootfs''"

record DiskMaker =
  configLocation :: string
  symlinkLocation :: string

record DiskLocation =
  diskNamePath :: string
  diskID :: string
  directoryPath :: string

text \<open>
  Modelled from the spec: the types \<open>Disks\<close> and \<open>DiskConfig\<close> are declared in a file
  of the package that is not at hand. The spec gives the selection policy of a storage
  class as \<open>deviceNames\<close> (set of absolute device paths), \<open>deviceIDs\<close> (set of
  stable-identifier paths) and \<open>directoryPaths\<close>; the code reads the first two
  through \<open>DeviceNames().List()\<close> and \<open>DeviceIDs().List()\<close>, the sorted list of a set
  of strings, and ranges over the field \<open>DirectoryPaths\<close>. The configuration maps
  storage-class names to policies; its list gives the classes in the order in which the
  \<open>range\<close> statement visits them.
\<close>

record Disks =
  DeviceNames :: "string fset"
  DeviceIDs :: "string fset"
  DirectoryPaths :: "string list"

record DiskConfig =
  Disks :: "(string \<times> Disks) list"

text \<open>\<open>sets.String.List\<close>: the elements as a sorted list.\<close>

definition List :: "string fset \<Rightarrow> string list" where
  "List s = sorted_list_of_fset s"

subsection \<open>Helpers\<close>

definition hasExactDisk :: "string fset \<Rightarrow> string \<Rightarrow> bool" where
  "hasExactDisk disks device = list_ex (\<lambda>disk. disk = device) (List disks)"

definition fileExists :: "'fs host \<Rightarrow> 'fs \<Rightarrow> string \<Rightarrow> bool" where
  "fileExists h s filename = (if os_StatNotExist h s filename then False else True)"

definition isDir :: "'fs host \<Rightarrow> 'fs \<Rightarrow> string \<Rightarrow> bool \<times> string option" where
  "isDir h s fullPath =
     (case os_OpenStat h s fullPath of
        Inl err \<Rightarrow> (False, Some err)
      | Inr d \<Rightarrow> (d, None))"

definition generateBindName :: "string \<Rightarrow> string \<Rightarrow> string" where
  "generateBindName file class = ''local-shared-'' @ hex (unat (fnv32a (file @ class)))"

definition findDeviceByID ::
  "'fs host \<Rightarrow> 'fs \<Rightarrow> string \<Rightarrow> string + string \<times> string" where
  "findDeviceByID h s deviceID =
     (case filepath_EvalSymlinks h s deviceID of
        None \<Rightarrow> Inl (''unable to find device with id '' @ deviceID)
      | Some diskDevPath \<Rightarrow> Inr (deviceID, diskDevPath))"

fun findStableDeviceID :: "'fs host \<Rightarrow> 'fs \<Rightarrow> string \<Rightarrow> string list \<Rightarrow> string + string" where
  "findStableDeviceID h s diskName [] = Inl (''unable to find ID of disk '' @ diskName)"
| "findStableDeviceID h s diskName (diskIDPath # allDisks) =
     (case filepath_EvalSymlinks h s diskIDPath of
        None \<Rightarrow> findStableDeviceID h s diskName allDisks
      | Some diskDevPath \<Rightarrow>
          if filepath_Base diskDevPath = diskName then Inr diskIDPath
          else findStableDeviceID h s diskName allDisks)"

subsection \<open>findNewDisks\<close>

definition newDiskLine :: "string fset \<Rightarrow> string \<Rightarrow> string fset" where
  "newDiskLine deviceSet line =
     (let deviceLine = strings_TrimSpace line;
          deviceDetails = strings_Split deviceLine CHR '' ''
      in if length deviceDetails = 1 \<and> length (deviceDetails ! 0) > 0
         then finsert (deviceDetails ! 0) deviceSet
         else deviceSet)"

definition findNewDisks :: "string \<Rightarrow> string fset \<times> string option" where
  "findNewDisks content =
     (foldl newDiskLine {||} (strings_Split content CHR 0x0A), None)"

subsection \<open>findMatchingDisks\<close>

text \<open>
  \<open>blockDeviceMap\<close> is a Go map from storage class to device locations; it is an
  association list with one entry per key, new keys at the end.
\<close>

type_synonym blockDeviceMap = "(string \<times> DiskLocation list) list"

definition addDiskToMap ::
  "blockDeviceMap \<Rightarrow> string \<Rightarrow> string \<Rightarrow> string \<Rightarrow> string \<Rightarrow> blockDeviceMap" where
  "addDiskToMap blockDeviceMap scName stableDeviceID diskName directoryPath' =
     (let deviceArray = (case map_of blockDeviceMap scName of
                           None \<Rightarrow> []
                         | Some a \<Rightarrow> a);
          deviceArray' = deviceArray @
            [\<lparr>diskNamePath = diskName, diskID = stableDeviceID,
              directoryPath = directoryPath'\<rparr>]
      in AList.update scName deviceArray' blockDeviceMap)"

text \<open>The body of the loop over the device names of a storage class.\<close>

definition deviceNameStep ::
  "'fs host \<Rightarrow> string fset \<Rightarrow> string list \<Rightarrow> string \<Rightarrow>
   blockDeviceMap \<times> 'fs world \<Rightarrow> string \<Rightarrow> blockDeviceMap \<times> 'fs world" where
  "deviceNameStep h deviceSet allDiskIds storageClass acc diskName =
     (let (m, st) = acc;
          baseDeviceName = filepath_Base diskName
      in if hasExactDisk deviceSet baseDeviceName then
           (case findStableDeviceID h (fs st) baseDeviceName allDiskIds of
              Inl err \<Rightarrow> (addDiskToMap m storageClass [] diskName [], st)
            | Inr matchedDeviceID \<Rightarrow>
                (addDiskToMap m storageClass matchedDeviceID diskName [], st))
         else (m, st))"

text \<open>The body of the loop over the device identifiers of a storage class.\<close>

definition deviceIDStep ::
  "'fs host \<Rightarrow> string fset \<Rightarrow> string \<Rightarrow>
   blockDeviceMap \<times> 'fs world \<Rightarrow> string \<Rightarrow> blockDeviceMap \<times> 'fs world" where
  "deviceIDStep h deviceSet storageClass acc deviceID =
     (let (m, st) = acc
      in case findDeviceByID h (fs st) deviceID of
           Inl err \<Rightarrow>
             (m, report (newEvent ErrorFindingMatchingDisk
                  (''unable to add disk-id '' @ deviceID @ '' to local disk pool: '' @ err)
                  deviceID) st)
         | Inr (matchedDeviceID, matchedDiskName) \<Rightarrow>
             (let baseDeviceName = filepath_Base matchedDiskName
              in if hasExactDisk deviceSet baseDeviceName
                 then (addDiskToMap m storageClass matchedDeviceID matchedDiskName [], st)
                 else (m, st)))"

text \<open>The body of the loop over the directories of a storage class.\<close>

definition directoryStep ::
  "'fs host \<Rightarrow> string \<Rightarrow>
   blockDeviceMap \<times> 'fs world \<Rightarrow> string \<Rightarrow> blockDeviceMap \<times> 'fs world" where
  "directoryStep h storageClass acc directory =
     (let (m, st) = acc;
          sharedDirPath = path_Join [rootfsDir, directory]
      in if fileExists h (fs st) sharedDirPath then
           (let (isDir', err) = isDir h (fs st) sharedDirPath;
                st1 = (case err of
                         Some e \<Rightarrow>
                           report (newEvent ErrorCreatingSharedDir
                             (''error checking shared dir '' @ sharedDirPath @ '': '' @ e) [])
                             st
                       | None \<Rightarrow> st)
            in if isDir' then (addDiskToMap m storageClass [] [] sharedDirPath, st1)
               else (m, st1))
         else
           (case mkdirAll h sharedDirPath st of
              (Some e, st1) \<Rightarrow>
                (m, report (newEvent ErrorCreatingSharedDir
                     (''error creating shared dir '' @ sharedDirPath @ '': '' @ e) []) st1)
            | (None, st1) \<Rightarrow> (addDiskToMap m storageClass [] [] sharedDirPath, st1)))"

text \<open>The body of the loop over the storage classes: the three passes in turn.\<close>

definition storageClassStep ::
  "'fs host \<Rightarrow> string fset \<Rightarrow> string list \<Rightarrow>
   blockDeviceMap \<times> 'fs world \<Rightarrow> string \<times> Disks \<Rightarrow> blockDeviceMap \<times> 'fs world" where
  "storageClassStep h deviceSet allDiskIds acc entry =
     (let (storageClass, disks) = entry;
          acc1 = foldl (deviceNameStep h deviceSet allDiskIds storageClass) acc
                   (List (DeviceNames disks));
          acc2 = foldl (deviceIDStep h deviceSet storageClass) acc1 (List (DeviceIDs disks))
      in foldl (directoryStep h storageClass) acc2 (DirectoryPaths disks))"

definition findMatchingDisks ::
  "'fs host \<Rightarrow> DiskConfig \<Rightarrow> string fset \<Rightarrow> string list \<Rightarrow> 'fs world \<Rightarrow>
   (blockDeviceMap \<times> string option) \<times> 'fs world" where
  "findMatchingDisks h diskConfig deviceSet allDiskIds st =
     (let (blockDeviceMap, st') =
            foldl (storageClassStep h deviceSet allDiskIds) ([], st) (Disks diskConfig)
      in ((blockDeviceMap, None), st'))"

subsection \<open>symLinkDisks\<close>

text \<open>The body of the inner loop of \<open>symLinkDisks\<close>, run for one device location.\<close>

definition symLinkDisk ::
  "'fs host \<Rightarrow> DiskMaker \<Rightarrow> string \<Rightarrow> 'fs world \<Rightarrow> DiskLocation \<Rightarrow> 'fs world" where
  "symLinkDisk h d storageClass st deviceNameLocation =
     (let symLinkDirPath = path_Join [symlinkLocation d, storageClass]
      in case mkdirAll h symLinkDirPath st of
           (Some e, st1) \<Rightarrow>
             report (newEvent ErrorFindingMatchingDisk
               (''error creating symlink dir '' @ symLinkDirPath @ '': '' @ e) []) st1
         | (None, st1) \<Rightarrow>
             if directoryPath deviceNameLocation \<noteq> [] \<and>
                fileExists h (fs st1)
                  (path_Join [symLinkDirPath,
                     generateBindName (directoryPath deviceNameLocation) storageClass])
             then st1
             else
               (let baseDeviceName = filepath_Base (diskNamePath deviceNameLocation);
                    symLinkPath = path_Join [symLinkDirPath, baseDeviceName]
                in if fileExists h (fs st1) symLinkPath then st1
                   else
                     (let (symLinkErr, st2) =
                            (if diskID deviceNameLocation \<noteq> []
                             then symlink h (diskID deviceNameLocation) symLinkPath st1
                             else symlink h (diskNamePath deviceNameLocation) symLinkPath st1);
                          st3 = (case symLinkErr of
                                   Some e \<Rightarrow>
                                     report (newEvent ErrorFindingMatchingDisk
                                       (''error creating symlink '' @ symLinkPath @ '': <nil>'')
                                       (diskNamePath deviceNameLocation)) st2
                                 | None \<Rightarrow> st2)
                      in report (newSuccessEvent FoundMatchingDisk
                           (''found matching disk '' @ baseDeviceName)
                           (diskNamePath deviceNameLocation)) st3)))"

definition symLinkClass ::
  "'fs host \<Rightarrow> DiskMaker \<Rightarrow> 'fs world \<Rightarrow> string \<times> DiskLocation list \<Rightarrow> 'fs world" where
  "symLinkClass h d st entry =
     (let (storageClass, deviceArray) = entry
      in foldl (symLinkDisk h d storageClass) st deviceArray)"

definition symLinkDisks :: "'fs host \<Rightarrow> DiskMaker \<Rightarrow> DiskConfig \<Rightarrow> 'fs world \<Rightarrow> 'fs world" where
  "symLinkDisks h d diskConfig st =
     (case run_lsblk h (fs st) of
        Inl err \<Rightarrow> report (newEvent ErrorRunningBlockList (''error running lsblk: '' @ err) []) st
      | Inr out \<Rightarrow>
          (case findNewDisks out of
             (deviceSet, Some err) \<Rightarrow>
               report (newEvent ErrorReadingBlockList (''error reading blocklist: '' @ err) []) st
           | (deviceSet, None) \<Rightarrow>
               (case filepath_Glob h (fs st) diskByIDPath of
                  Inl err \<Rightarrow>
                    report (newEvent ErrorListingDeviceID
                      (''error listing disks in /dev/disk/by-id: '' @ err) []) st
                | Inr allDiskIds \<Rightarrow>
                    (case findMatchingDisks h diskConfig deviceSet allDiskIds st of
                       ((deviceMap, Some err), st1) \<Rightarrow>
                         report (newEvent ErrorFindingMatchingDisk
                           (''eror finding matching disks: '' @ err) []) st1
                     | ((deviceMap, None), st1) \<Rightarrow>
                         if length deviceMap = 0 then
                           report (newEvent ErrorFindingMatchingDisk
                             ''found empty matching device list'' []) st1
                         else foldl (symLinkClass h d) st1 deviceMap))))"

subsection \<open>Notions for the properties, and a host to run the code on\<close>

text \<open>The device locations that a device map holds for a storage class.\<close>

definition classList :: "blockDeviceMap \<Rightarrow> string \<Rightarrow> DiskLocation list" where
  "classList m sc = (case map_of m sc of None \<Rightarrow> [] | Some a \<Rightarrow> a)"

text \<open>
  The event that \<open>symLinkDisks\<close> reports when the device map is empty, and the number
  of times it stands in the event log.
\<close>

definition emptyMatchEvent :: event where
  "emptyMatchEvent = newEvent ErrorFindingMatchingDisk ''found empty matching device list'' []"

definition emptyMatchCount :: "'fs world \<Rightarrow> nat" where
  "emptyMatchCount st = count_list (events st) emptyMatchEvent"

text \<open>No storage class of the device map has an empty list.\<close>

definition noEmptyClass :: "blockDeviceMap \<Rightarrow> bool" where
  "noEmptyClass m = list_all (\<lambda>e. snd e \<noteq> []) m"

text \<open>
  A device location is either for a device (a device path and no directory path) or for
  a directory (a directory path, no device path and no stable id).
\<close>

definition deviceOrDirectory :: "DiskLocation \<Rightarrow> bool" where
  "deviceOrDirectory loc =
     ((diskNamePath loc \<noteq> [] \<and> directoryPath loc = []) \<or>
      (diskNamePath loc = [] \<and> diskID loc = [] \<and> directoryPath loc \<noteq> []))"

text \<open>
  The two kinds of device location: for a device (a device path and no directory path)
  and for a directory (a directory path, no device path and no stable id).
\<close>

definition deviceLocation :: "DiskLocation \<Rightarrow> bool" where
  "deviceLocation loc = (diskNamePath loc \<noteq> [] \<and> directoryPath loc = [])"

definition directoryLocation :: "DiskLocation \<Rightarrow> bool" where
  "directoryLocation loc =
     (diskNamePath loc = [] \<and> diskID loc = [] \<and> directoryPath loc \<noteq> [])"

text \<open>All device locations of a device map, over all storage classes.\<close>

definition allLocations :: "blockDeviceMap \<Rightarrow> DiskLocation list" where
  "allLocations m = concat (map snd m)"

text \<open>Every device location of the device map is for a device or for a directory.\<close>

definition allGood :: "blockDeviceMap \<Rightarrow> bool" where
  "allGood m = list_all deviceOrDirectory (allLocations m)"

text \<open>
  The stable id that the pass over the device names gives a device: the identifier
  found by \<open>findStableDeviceID\<close>, or the empty string when there is none.
\<close>

definition stableIDOf :: "'fs host \<Rightarrow> 'fs \<Rightarrow> string list \<Rightarrow> string \<Rightarrow> string" where
  "stableIDOf h s allDiskIds diskName =
     (case findStableDeviceID h s (filepath_Base diskName) allDiskIds of
        Inl err \<Rightarrow> []
      | Inr matchedDeviceID \<Rightarrow> matchedDeviceID)"

text \<open>
  The shape of the element list that \<open>path.Clean\<close> builds (last element first):
  no element is empty, \<open>.\<close> or contains a slash, and \<open>..\<close> elements stand only at
  the beginning of a path that is not rooted.
\<close>

fun normalOut :: "bool \<Rightarrow> string list \<Rightarrow> bool" where
  "normalOut rooted [] = True"
| "normalOut rooted (e # out) =
     (if e = ''..'' then \<not> rooted \<and> list_all (\<lambda>x. x = ''..'') out
      else e \<noteq> [] \<and> e \<noteq> ''.'' \<and> CHR ''/'' \<notin> set e \<and> normalOut rooted out)"

text \<open>
  The non-empty fields of a line of the block-device listing: the line is trimmed and
  split at single spaces, as \<open>findNewDisks\<close> does.
\<close>

definition fieldsOf :: "string \<Rightarrow> string list" where
  "fieldsOf line =
     filter (\<lambda>x. x \<noteq> []) (strings_Split (strings_TrimSpace line) CHR '' '')"



text \<open>
  A small host for running the code on concrete inputs. Its file system is the list of
  the paths that exist. \<open>lsblk\<close> prints \<open>lsblkOut\<close>; \<open>links\<close> are the symbolic links
  under \<open>/dev/disk/by-id\<close> with their targets; \<open>dirs\<close> says of a path whether it is a
  directory; \<open>MkdirAll\<close> always succeeds (and changes nothing when the path exists)
  and \<open>Symlink\<close> fails when \<open>linkFails\<close>.
\<close>

definition exampleHost ::
  "string \<Rightarrow> (string \<times> string) list \<Rightarrow> (string \<times> bool) list \<Rightarrow> bool \<Rightarrow> string list host" where
  "exampleHost lsblkOut links dirs linkFails =
     \<lparr>os_StatNotExist = (\<lambda>s p. p \<notin> set s),
      os_OpenStat = (\<lambda>s p. case map_of dirs p of
                              None \<Rightarrow> Inl ''permission denied''
                            | Some b \<Rightarrow> Inr b),
      walkSymlinks = (\<lambda>s p. map_of links p),
      filepath_Glob = (\<lambda>s pat. Inr (map fst links)),
      run_lsblk = (\<lambda>s. Inr lsblkOut),
      os_MkdirAll = (\<lambda>s p. (None, if p \<in> set s then s else p # s)),
      os_Symlink = (\<lambda>s t l. if linkFails then (Some ''permission denied'', s)
                               else (None, l # s))\<rparr>"

definition exampleMaker :: DiskMaker where
  "exampleMaker =
     \<lparr>configLocation = ''/etc/diskmaker.yaml'', symlinkLocation = ''/mnt/local-storage''\<rparr>"

definition exampleWorld :: "string list \<Rightarrow> string list world" where
  "exampleWorld paths = \<lparr>fs = paths, events = [], calls = []\<rparr>"


section \<open>Properties\<close>

subsection \<open>Basic facts\<close>

lemmas path_eval = path_Join_def path_Clean_def cleanStep_def filepath_Base_def

lemmas host_eval = exampleHost_def exampleMaker_def exampleWorld_def mkdirAll_def symlink_def
  fileExists_def isDir_def report_def newEvent_def newSuccessEvent_def

lemma hasExactDisk_iff: "hasExactDisk disks device \<longleftrightarrow> device |\<in>| disks"
  by (simp add: hasExactDisk_def List_def list_ex_iff)

lemma classList_addDiskToMap:
  "classList (addDiskToMap m sc i n dp) sc' =
     classList m sc' @
     (if sc' = sc then [\<lparr>diskNamePath = n, diskID = i, directoryPath = dp\<rparr>] else [])"
  by (simp add: classList_def addDiskToMap_def update_conv' split: option.splits)

subsection \<open>Parsing and matching return no error\<close>

text \<open>
  Claim C9. For every input, \<open>findNewDisks\<close> and \<open>findMatchingDisks\<close> return a nil
  error. The two branches of \<open>symLinkDisks\<close> that report \<open>ErrorReadingBlockList\<close>
  and the \<open>ErrorFindingMatchingDisk\<close> event for a failed matching are therefore dead:
  \<open>symLinkDisks\<close> is equal to the same cycle without them. After a successful listing
  of the block devices and a successful glob of the identifiers, the cycle ends early
  only through the check for an empty device map.
\<close>

theorem findNewDisks_findMatchingDisks_no_error:
  "snd (findNewDisks content) = None
   \<and> snd (fst (findMatchingDisks h diskConfig deviceSet allDiskIds st)) = None
   \<and> symLinkDisks h d diskConfig st =
       (case run_lsblk h (fs st) of
          Inl err \<Rightarrow>
            report (newEvent ErrorRunningBlockList (''error running lsblk: '' @ err) []) st
        | Inr out \<Rightarrow>
            (case filepath_Glob h (fs st) diskByIDPath of
               Inl err \<Rightarrow>
                 report (newEvent ErrorListingDeviceID
                   (''error listing disks in /dev/disk/by-id: '' @ err) []) st
             | Inr allDiskIds \<Rightarrow>
                 (let r = findMatchingDisks h diskConfig (fst (findNewDisks out)) allDiskIds st
                  in if fst (fst r) = [] then
                       report (newEvent ErrorFindingMatchingDisk
                         ''found empty matching device list'' []) (snd r)
                     else foldl (symLinkClass h d) (snd r) (fst (fst r)))))"
  by (simp add: findNewDisks_def findMatchingDisks_def symLinkDisks_def Let_def
      split: sum.splits prod.splits)

subsection \<open>The pass over the device identifiers\<close>

lemma deviceIDStep_unfold:
  "deviceIDStep h deviceSet sc (m, st) i =
     (case filepath_EvalSymlinks h (fs st) i of
        None \<Rightarrow>
          (m, report (newEvent ErrorFindingMatchingDisk
                (''unable to add disk-id '' @ i @ '' to local disk pool: '' @
                 ''unable to find device with id '' @ i) i) st)
      | Some p \<Rightarrow>
          (if filepath_Base p |\<in>| deviceSet then addDiskToMap m sc i p [] else m, st))"
  by (simp add: deviceIDStep_def findDeviceByID_def hasExactDisk_iff split: option.splits)

text \<open>
  Claim C6. The pass over the configured device identifiers of a storage class, started
  with any device map and in any state: the locations it appends to the list of the
  class are, in order, one for each identifier that resolves to a device path whose base
  name is in the set of unmounted devices (the resolved path with the identifier as
  stable id), and no other; the events it reports are, in order, one error event for
  each identifier whose resolution fails, with that identifier as its device and in its
  message; an identifier that fails does not stop the pass. The pass changes no file
  and makes no call that could.
\<close>

theorem deviceID_pass:
  "classList (fst (foldl (deviceIDStep h deviceSet sc) (m, st) deviceIds)) sc =
     classList m sc @
     [\<lparr>diskNamePath = p, diskID = i, directoryPath = []\<rparr>.
        i \<leftarrow> deviceIds,
        p \<leftarrow> (case filepath_EvalSymlinks h (fs st) i of None \<Rightarrow> [] | Some p \<Rightarrow> [p]),
        filepath_Base p |\<in>| deviceSet]
   \<and> events (snd (foldl (deviceIDStep h deviceSet sc) (m, st) deviceIds)) =
     events st @
     [newEvent ErrorFindingMatchingDisk
        (''unable to add disk-id '' @ i @ '' to local disk pool: '' @
         ''unable to find device with id '' @ i) i.
        i \<leftarrow> deviceIds, filepath_EvalSymlinks h (fs st) i = None]
   \<and> fs (snd (foldl (deviceIDStep h deviceSet sc) (m, st) deviceIds)) = fs st
   \<and> calls (snd (foldl (deviceIDStep h deviceSet sc) (m, st) deviceIds)) = calls st"
proof (induction deviceIds arbitrary: m st)
  case Nil
  show ?case by simp
next
  case (Cons i ids)
  show ?case
  proof (cases "filepath_EvalSymlinks h (fs st) i")
    case None
    then show ?thesis
      using Cons.IH [of m "report (newEvent ErrorFindingMatchingDisk
                (''unable to add disk-id '' @ i @ '' to local disk pool: '' @
                 ''unable to find device with id '' @ i) i) st"]
      by (simp add: deviceIDStep_unfold report_def)
  next
    case (Some p)
    then show ?thesis
      using Cons.IH [of "if filepath_Base p |\<in>| deviceSet then addDiskToMap m sc i p [] else m" st]
      by (simp add: deviceIDStep_unfold classList_addDiskToMap)
  qed
qed

subsection \<open>Linking one device location\<close>






text \<open>
  When the creation of the link fails, the loop body reports the error event and then,
  with no \<open>continue\<close> in that branch, goes on to report the success event as well.
\<close>

lemma symLinkDisk_link_failed:
  assumes "mkdirAll h (path_Join [symlinkLocation d, sc]) st = (None, st1)"
    and "directoryPath loc = []"
    and "\<not> fileExists h (fs st1)
           (path_Join [path_Join [symlinkLocation d, sc], filepath_Base (diskNamePath loc)])"
    and "symlink h (if diskID loc \<noteq> [] then diskID loc else diskNamePath loc)
           (path_Join [path_Join [symlinkLocation d, sc], filepath_Base (diskNamePath loc)]) st1
         = (Some e, st2)"
  shows "events (symLinkDisk h d sc st loc) =
           events st @
           [newEvent ErrorFindingMatchingDisk
              (''error creating symlink '' @
               path_Join [path_Join [symlinkLocation d, sc], filepath_Base (diskNamePath loc)] @
               '': <nil>'') (diskNamePath loc),
            newSuccessEvent FoundMatchingDisk
              (''found matching disk '' @ filepath_Base (diskNamePath loc)) (diskNamePath loc)]"
  using assms
  by (auto simp: symLinkDisk_def Let_def report_def mkdirAll_def symlink_def
      split: prod.splits option.splits if_splits)

text \<open>
  Claim C1. The claim says that a failed creation of the link reports exactly one error
  event for the device and no success event. On the host whose \<open>Symlink\<close> fails, for
  the device \<open>/dev/sdb\<close> of class \<open>ssd\<close> with no file at the symlink path, the code
  attempts the link and reports two events for the device: the error event, then the
  success event.
\<close>

theorem symLinkDisk_link_failure_reports_success:
  "events (symLinkDisk (exampleHost [] [] [] True) exampleMaker ''ssd'' (exampleWorld [])
     \<lparr>diskNamePath = ''/dev/sdb'', diskID = [], directoryPath = []\<rparr>) =
     [newEvent ErrorFindingMatchingDisk
        ''error creating symlink /mnt/local-storage/ssd/sdb: <nil>'' ''/dev/sdb'',
      newSuccessEvent FoundMatchingDisk ''found matching disk sdb'' ''/dev/sdb'']
   \<and> calls (symLinkDisk (exampleHost [] [] [] True) exampleMaker ''ssd'' (exampleWorld [])
     \<lparr>diskNamePath = ''/dev/sdb'', diskID = [], directoryPath = []\<rparr>) =
     [MkdirAll ''/mnt/local-storage/ssd'', Symlink ''/dev/sdb'' ''/mnt/local-storage/ssd/sdb'']"
  by (simp add: symLinkDisk_def Let_def path_eval host_eval)

text \<open>
  When the link is created, the loop body reports the success event and nothing else.
  The link points at the stable id when the location has one, else at the device path.
\<close>

theorem symLinkDisk_link_created:
  assumes "directoryPath loc = []"
    and "mkdirAll h (path_Join [symlinkLocation d, sc]) st = (None, st1)"
    and "\<not> fileExists h (fs st1)
           (path_Join [path_Join [symlinkLocation d, sc], filepath_Base (diskNamePath loc)])"
    and "symlink h (if diskID loc \<noteq> [] then diskID loc else diskNamePath loc)
           (path_Join [path_Join [symlinkLocation d, sc], filepath_Base (diskNamePath loc)]) st1
         = (None, st2)"
  shows "symLinkDisk h d sc st loc =
           report (newSuccessEvent FoundMatchingDisk
                     (''found matching disk '' @ filepath_Base (diskNamePath loc))
                     (diskNamePath loc)) st2
       \<and> events st2 = events st
       \<and> calls st2 = calls st @
           [MkdirAll (path_Join [symlinkLocation d, sc]),
            Symlink (if diskID loc \<noteq> [] then diskID loc else diskNamePath loc)
              (path_Join [path_Join [symlinkLocation d, sc],
                 filepath_Base (diskNamePath loc)])]"
  using assms
  by (auto simp: symLinkDisk_def Let_def mkdirAll_def symlink_def
      split: prod.splits option.splits if_splits)

theorem symLinkDisk_link_created_witness:
  "directoryPath \<lparr>diskNamePath = ''/dev/sdb'', diskID = ''/dev/disk/by-id/ata-X'',
                  directoryPath = []\<rparr> = []
   \<and> mkdirAll (exampleHost [] [] [] False) (path_Join [symlinkLocation exampleMaker, ''ssd''])
       (exampleWorld []) =
       (None, \<lparr>fs = [''/mnt/local-storage/ssd''], events = [],
               calls = [MkdirAll ''/mnt/local-storage/ssd'']\<rparr>)
   \<and> symLinkDisk (exampleHost [] [] [] False) exampleMaker ''ssd'' (exampleWorld [])
        \<lparr>diskNamePath = ''/dev/sdb'', diskID = ''/dev/disk/by-id/ata-X'',
          directoryPath = []\<rparr> =
       \<lparr>fs = [''/mnt/local-storage/ssd/sdb'', ''/mnt/local-storage/ssd''],
        events = [newSuccessEvent FoundMatchingDisk ''found matching disk sdb'' ''/dev/sdb''],
        calls = [MkdirAll ''/mnt/local-storage/ssd'',
                 Symlink ''/dev/disk/by-id/ata-X'' ''/mnt/local-storage/ssd/sdb'']\<rparr>"
  using symLinkDisk_link_created
    [of "\<lparr>diskNamePath = ''/dev/sdb'', diskID = ''/dev/disk/by-id/ata-X'', directoryPath = []\<rparr>"
        "exampleHost [] [] [] False" exampleMaker "''ssd''" "exampleWorld []"
        "\<lparr>fs = [''/mnt/local-storage/ssd''], events = [],
          calls = [MkdirAll ''/mnt/local-storage/ssd'']\<rparr>"
        "\<lparr>fs = [''/mnt/local-storage/ssd/sdb'', ''/mnt/local-storage/ssd''], events = [],
          calls = [MkdirAll ''/mnt/local-storage/ssd'',
                   Symlink ''/dev/disk/by-id/ata-X'' ''/mnt/local-storage/ssd/sdb'']\<rparr>"]
  by (simp add: path_eval host_eval)

subsection \<open>The pass over the directories\<close>

text \<open>
  Claim C7, as the code has it. For a configured directory whose path under the root
  of the host exists: when the check of the directory fails, one error event is
  reported and no location is added; when the path is a directory, its location is
  added and no event is reported; when the path exists and is not a directory, no
  location is added and no event is reported. In every case no creation is attempted
  and the file system is left as it is.
\<close>

theorem directoryStep_existing:
  assumes "fileExists h (fs st) (path_Join [rootfsDir, directory])"
  shows "classList (fst (directoryStep h sc (m, st) directory)) sc =
           classList m sc @
           (if os_OpenStat h (fs st) (path_Join [rootfsDir, directory]) = Inr True
            then [\<lparr>diskNamePath = [], diskID = [],
                   directoryPath = path_Join [rootfsDir, directory]\<rparr>]
            else [])
       \<and> events (snd (directoryStep h sc (m, st) directory)) =
           events st @
           (case os_OpenStat h (fs st) (path_Join [rootfsDir, directory]) of
              Inl e \<Rightarrow>
                [newEvent ErrorCreatingSharedDir
                   (''error checking shared dir '' @ path_Join [rootfsDir, directory] @
                    '': '' @ e) []]
            | Inr b \<Rightarrow> [])
       \<and> calls (snd (directoryStep h sc (m, st) directory)) = calls st
       \<and> fs (snd (directoryStep h sc (m, st) directory)) = fs st"
  using assms
  by (auto simp: directoryStep_def isDir_def Let_def report_def classList_addDiskToMap
      split: sum.splits)

theorem directoryStep_existing_witness:
  "fileExists (exampleHost [] [] [(''/rootfs/shared1'', True)] False) [''/rootfs/shared1'']
     (path_Join [rootfsDir, ''shared1''])
   \<and> classList (fst (directoryStep (exampleHost [] [] [(''/rootfs/shared1'', True)] False)
        ''nfs'' ([], exampleWorld [''/rootfs/shared1'']) ''shared1'')) ''nfs'' =
      [\<lparr>diskNamePath = [], diskID = [], directoryPath = ''/rootfs/shared1''\<rparr>]
   \<and> events (snd (directoryStep (exampleHost [] [] [(''/rootfs/shared1'', True)] False)
        ''nfs'' ([], exampleWorld [''/rootfs/shared1'']) ''shared1'')) = []
   \<and> calls (snd (directoryStep (exampleHost [] [] [(''/rootfs/shared1'', True)] False)
        ''nfs'' ([], exampleWorld [''/rootfs/shared1'']) ''shared1'')) = []"
  using directoryStep_existing
    [of "exampleHost [] [] [(''/rootfs/shared1'', True)] False"
        "exampleWorld [''/rootfs/shared1'']" "''shared1''" "''nfs''" "[]"]
  by (simp add: path_eval host_eval rootfsDir_def classList_def)

text \<open>
  The claim as it was stated also asks for an error event when the path exists and is
  not a directory. The code reports none: on the host where \<open>/rootfs/shared1\<close> is
  a regular file the loop body returns the map and the state unchanged.
\<close>

theorem directoryStep_not_a_directory_silent:
  "fileExists (exampleHost [] [] [(''/rootfs/shared1'', False)] False) [''/rootfs/shared1'']
     (path_Join [rootfsDir, ''shared1''])
   \<and> isDir (exampleHost [] [] [(''/rootfs/shared1'', False)] False) [''/rootfs/shared1'']
     (path_Join [rootfsDir, ''shared1'']) = (False, None)
   \<and> directoryStep (exampleHost [] [] [(''/rootfs/shared1'', False)] False)
        ''nfs'' ([], exampleWorld [''/rootfs/shared1'']) ''shared1'' =
      ([], \<lparr>fs = [''/rootfs/shared1''], events = [], calls = []\<rparr>)"
  by (simp add: directoryStep_def Let_def path_eval host_eval rootfsDir_def)

subsection \<open>The cycle with an empty device map\<close>

lemma emptyMatchCount_report:
  "emptyMatchCount (report e st) = emptyMatchCount st + (if e = emptyMatchEvent then 1 else 0)"
  by (simp add: emptyMatchCount_def report_def)

lemma emptyMatchCount_mkdirAll:
  "mkdirAll h p st = (e, st') \<Longrightarrow> emptyMatchCount st' = emptyMatchCount st"
  by (auto simp: emptyMatchCount_def mkdirAll_def split: prod.splits)

lemma emptyMatchCount_symlink:
  "symlink h t l st = (e, st') \<Longrightarrow> emptyMatchCount st' = emptyMatchCount st"
  by (auto simp: emptyMatchCount_def symlink_def split: prod.splits)

lemma deviceNameStep_snd: "snd (deviceNameStep h ds ids sc (m, st) n) = st"
  by (simp add: deviceNameStep_def Let_def split: sum.splits)

lemma deviceNames_fold_snd: "snd (foldl (deviceNameStep h ds ids sc) (m, st) ns) = st"
proof (induction ns arbitrary: m)
  case Nil show ?case by simp
next
  case (Cons n ns)
  obtain m' where "deviceNameStep h ds ids sc (m, st) n = (m', st)"
    using deviceNameStep_snd [of h ds ids sc m st n] by (cases "deviceNameStep h ds ids sc (m, st) n") simp
  then show ?case using Cons.IH by simp
qed

lemma deviceIDStep_count:
  "emptyMatchCount (snd (deviceIDStep h ds sc (m, st) i)) = emptyMatchCount st"
  by (simp add: deviceIDStep_unfold emptyMatchCount_report emptyMatchEvent_def newEvent_def
      split: option.splits)

lemma directoryStep_count:
  "emptyMatchCount (snd (directoryStep h sc (m, st) dir)) = emptyMatchCount st"
  by (auto simp: directoryStep_def Let_def isDir_def emptyMatchCount_report emptyMatchEvent_def
      newEvent_def split: sum.splits prod.splits option.splits dest: emptyMatchCount_mkdirAll)

lemma fold_count:
  assumes "\<And>m st x. emptyMatchCount (snd (f (m, st) x)) = emptyMatchCount st"
  shows "emptyMatchCount (snd (foldl f (m, st) xs)) = emptyMatchCount st"
proof (induction xs arbitrary: m st)
  case Nil show ?case by simp
next
  case (Cons x xs)
  show ?case using Cons.IH [of "fst (f (m, st) x)" "snd (f (m, st) x)"] assms [of m st x]
    by simp
qed

lemma storageClassStep_count:
  "emptyMatchCount (snd (storageClassStep h ds ids (m, st) e)) = emptyMatchCount st"
proof -
  obtain sc disks where e: "e = (sc, disks)" by (cases e)
  define a1 where "a1 = foldl (deviceNameStep h ds ids sc) (m, st) (List (DeviceNames disks))"
  define a2 where "a2 = foldl (deviceIDStep h ds sc) a1 (List (DeviceIDs disks))"
  have 1: "snd a1 = st" unfolding a1_def by (rule deviceNames_fold_snd)
  have 2: "emptyMatchCount (snd a2) = emptyMatchCount (snd a1)"
    unfolding a2_def using fold_count [of "deviceIDStep h ds sc" "fst a1" "snd a1"]
    by (simp add: deviceIDStep_count)
  have 3: "emptyMatchCount (snd (foldl (directoryStep h sc) a2 (DirectoryPaths disks))) =
           emptyMatchCount (snd a2)"
    using fold_count [of "directoryStep h sc" "fst a2" "snd a2"]
    by (simp add: directoryStep_count)
  show ?thesis using 1 2 3 by (simp add: storageClassStep_def e a1_def a2_def)
qed

lemma findMatchingDisks_count:
  "emptyMatchCount (snd (findMatchingDisks h cfg ds ids st)) = emptyMatchCount st"
proof -
  obtain m st' where f: "foldl (storageClassStep h ds ids) ([], st) (Disks cfg) = (m, st')"
    by (cases "foldl (storageClassStep h ds ids) ([], st) (Disks cfg)")
  have "emptyMatchCount (snd (foldl (storageClassStep h ds ids) ([], st) (Disks cfg))) =
        emptyMatchCount st"
    by (rule fold_count) (rule storageClassStep_count)
  with f show ?thesis by (simp add: findMatchingDisks_def)
qed

lemma symLinkDisk_count:
  "emptyMatchCount (symLinkDisk h d sc st loc) = emptyMatchCount st"
  by (auto simp: symLinkDisk_def Let_def emptyMatchCount_report emptyMatchEvent_def
      newEvent_def newSuccessEvent_def split: option.splits prod.splits
      dest!: emptyMatchCount_mkdirAll emptyMatchCount_symlink)

lemma symLinkDisk_fold_count:
  "emptyMatchCount (foldl (symLinkDisk h d sc) st locs) = emptyMatchCount st"
  by (induction locs arbitrary: st) (simp_all add: symLinkDisk_count)

lemma symLinkClass_fold_count:
  "emptyMatchCount (foldl (symLinkClass h d) st m) = emptyMatchCount st"
  by (induction m arbitrary: st) (auto simp: symLinkClass_def symLinkDisk_fold_count)


lemma set_update_cases:
  "e \<in> set (AList.update k v al) \<Longrightarrow> e = (k, v) \<or> e \<in> set al"
  by (induction al) (auto split: if_splits)

lemma noEmptyClass_addDiskToMap:
  "noEmptyClass m \<Longrightarrow> noEmptyClass (addDiskToMap m sc i n dp)"
  by (auto simp: noEmptyClass_def addDiskToMap_def list_all_iff dest!: set_update_cases)

lemma noEmptyClass_deviceNameStep:
  "noEmptyClass m \<Longrightarrow> noEmptyClass (fst (deviceNameStep h ds ids sc (m, st) n))"
  by (simp add: deviceNameStep_def Let_def noEmptyClass_addDiskToMap split: sum.splits)

lemma noEmptyClass_deviceIDStep:
  "noEmptyClass m \<Longrightarrow> noEmptyClass (fst (deviceIDStep h ds sc (m, st) i))"
  by (simp add: deviceIDStep_unfold noEmptyClass_addDiskToMap split: option.splits)

lemma noEmptyClass_directoryStep:
  "noEmptyClass m \<Longrightarrow> noEmptyClass (fst (directoryStep h sc (m, st) dir))"
  by (auto simp: directoryStep_def Let_def noEmptyClass_addDiskToMap
      split: sum.splits prod.splits option.splits)

lemma fold_noEmptyClass:
  assumes "\<And>m st x. noEmptyClass m \<Longrightarrow> noEmptyClass (fst (f (m, st) x))"
  shows "noEmptyClass m \<Longrightarrow> noEmptyClass (fst (foldl f (m, st) xs))"
proof (induction xs arbitrary: m st)
  case Nil then show ?case by simp
next
  case (Cons x xs)
  show ?case
    using Cons.IH [of "fst (f (m, st) x)" "snd (f (m, st) x)"] assms [of m st x] Cons.prems
    by simp
qed

lemma noEmptyClass_storageClassStep:
  assumes "noEmptyClass m"
  shows "noEmptyClass (fst (storageClassStep h ds ids (m, st) e))"
proof -
  obtain sc disks where e: "e = (sc, disks)" by (cases e)
  define a1 where "a1 = foldl (deviceNameStep h ds ids sc) (m, st) (List (DeviceNames disks))"
  define a2 where "a2 = foldl (deviceIDStep h ds sc) a1 (List (DeviceIDs disks))"
  have 1: "noEmptyClass (fst a1)"
    unfolding a1_def using assms by (rule fold_noEmptyClass [rotated]) (rule noEmptyClass_deviceNameStep)
  have 2: "noEmptyClass (fst a2)"
    unfolding a2_def
    using fold_noEmptyClass [of "deviceIDStep h ds sc" "fst a1" "snd a1"] 1
    by (simp add: noEmptyClass_deviceIDStep)
  have 3: "noEmptyClass (fst (foldl (directoryStep h sc) a2 (DirectoryPaths disks)))"
    using fold_noEmptyClass [of "directoryStep h sc" "fst a2" "snd a2"] 2
    by (simp add: noEmptyClass_directoryStep)
  show ?thesis using 3 by (simp add: storageClassStep_def e a1_def a2_def)
qed

lemma noEmptyClass_findMatchingDisks:
  "noEmptyClass (fst (fst (findMatchingDisks h cfg ds ids st)))"
proof -
  have "noEmptyClass (fst (foldl (storageClassStep h ds ids) ([], st) (Disks cfg)))"
  proof (rule fold_noEmptyClass)
    show "noEmptyClass []" by (simp add: noEmptyClass_def)
  qed (rule noEmptyClass_storageClassStep)
  then show ?thesis by (simp add: findMatchingDisks_def case_prod_beta)
qed

lemma noEmptyClass_total: "noEmptyClass m \<Longrightarrow> concat (map snd m) = [] \<longleftrightarrow> m = []"
  by (cases m) (auto simp: noEmptyClass_def)

lemma List_empty: "List {||} = []"
  by (simp add: List_def sorted_list_of_fset.rep_eq)

lemma List_single: "List {|x|} = [x]"
  by (simp add: List_def sorted_list_of_fset.rep_eq)

lemma TrimSpace_empty: "strings_TrimSpace [] = []"
  by (simp add: strings_TrimSpace_def TrimLeft.simps TrimRight.simps leadingSpace_def
      trailingSpace_def whiteSpace_def)

lemma findNewDisks_empty: "findNewDisks [] = ({||}, None)"
  by (simp add: findNewDisks_def newDiskLine_def TrimSpace_empty)

text \<open>
  Claim C5. In a cycle that reaches the matcher (the listing of the block devices and
  the glob succeeded): when the matcher returns no device location at all,
  \<open>symLinkDisks\<close> ends in the state that the matcher left with one event added, the
  event for the empty device map, so that this event is reported exactly once in the
  cycle, whatever the number of storage classes, and the loop that creates class
  directories and links does nothing; when the matcher returns at least one location,
  that event is not reported in the cycle.
\<close>

theorem empty_match_reported_once:
  assumes "run_lsblk h (fs st) = Inr out"
    and "filepath_Glob h (fs st) diskByIDPath = Inr allDiskIds"
    and "findMatchingDisks h diskConfig (fst (findNewDisks out)) allDiskIds st =
           ((deviceMap, err), st1)"
  shows "if concat (map snd deviceMap) = []
         then symLinkDisks h d diskConfig st = report emptyMatchEvent st1
            \<and> emptyMatchCount (symLinkDisks h d diskConfig st) = emptyMatchCount st + 1
         else emptyMatchCount (symLinkDisks h d diskConfig st) = emptyMatchCount st"
proof -
  have ne: "noEmptyClass deviceMap"
    using noEmptyClass_findMatchingDisks [of h diskConfig "fst (findNewDisks out)" allDiskIds st]
      assms(3) by simp
  have c1: "emptyMatchCount st1 = emptyMatchCount st"
    using findMatchingDisks_count [of h diskConfig "fst (findNewDisks out)" allDiskIds st]
      assms(3) by simp
  have e: "err = None"
    using assms(3) by (auto simp: findMatchingDisks_def split: prod.splits)
  have run: "symLinkDisks h d diskConfig st =
      (if deviceMap = [] then report emptyMatchEvent st1
       else foldl (symLinkClass h d) st1 deviceMap)"
    using assms e
    by (simp add: symLinkDisks_def findNewDisks_def emptyMatchEvent_def)
  show ?thesis
  proof (cases "deviceMap = []")
    case True
    then show ?thesis using run c1 by (simp add: emptyMatchCount_report)
  next
    case False
    then have "concat (map snd deviceMap) \<noteq> []" using ne noEmptyClass_total by blast
    then show ?thesis using run False c1 symLinkClass_fold_count [of h d st1 deviceMap] by simp
  qed
qed

theorem empty_match_reported_once_witness:
  "run_lsblk (exampleHost [] [] [] False) (fs (exampleWorld [])) = Inr []
   \<and> filepath_Glob (exampleHost [] [] [] False) (fs (exampleWorld [])) diskByIDPath = Inr []
   \<and> findMatchingDisks (exampleHost [] [] [] False)
        \<lparr>Disks = [(''ssd'', \<lparr>DeviceNames = {|''/dev/sdb''|}, DeviceIDs = {||},
                            DirectoryPaths = []\<rparr>)]\<rparr>
        (fst (findNewDisks [])) [] (exampleWorld []) = (([], None), exampleWorld [])
   \<and> symLinkDisks (exampleHost [] [] [] False) exampleMaker
        \<lparr>Disks = [(''ssd'', \<lparr>DeviceNames = {|''/dev/sdb''|}, DeviceIDs = {||},
                            DirectoryPaths = []\<rparr>)]\<rparr>
        (exampleWorld []) = report emptyMatchEvent (exampleWorld [])
   \<and> emptyMatchCount (symLinkDisks (exampleHost [] [] [] False) exampleMaker
        \<lparr>Disks = [(''ssd'', \<lparr>DeviceNames = {|''/dev/sdb''|}, DeviceIDs = {||},
                            DirectoryPaths = []\<rparr>)]\<rparr>
        (exampleWorld [])) = 1"
proof -
  have a: "run_lsblk (exampleHost [] [] [] False) (fs (exampleWorld [])) = Inr []"
    by (simp add: exampleHost_def)
  have b: "filepath_Glob (exampleHost [] [] [] False) (fs (exampleWorld [])) diskByIDPath
             = Inr []"
    by (simp add: exampleHost_def)
  have c: "findMatchingDisks (exampleHost [] [] [] False)
        \<lparr>Disks = [(''ssd'', \<lparr>DeviceNames = {|''/dev/sdb''|}, DeviceIDs = {||},
                            DirectoryPaths = []\<rparr>)]\<rparr>
        (fst (findNewDisks [])) [] (exampleWorld []) = (([], None), exampleWorld [])"
    by (simp add: findMatchingDisks_def storageClassStep_def deviceNameStep_def hasExactDisk_iff
        List_empty List_single Let_def findNewDisks_empty)
  show ?thesis
    using empty_match_reported_once [OF a b c, of exampleMaker] a b c
    by (simp add: emptyMatchCount_def exampleWorld_def report_def)
qed

subsection \<open>Device locations are for a device or for a directory\<close>

lemma path_Clean_nonempty: "path_Clean p \<noteq> []"
  by (simp add: path_Clean_def Let_def)

lemma path_Join_nonempty: "e \<noteq> [] \<Longrightarrow> path_Join (e # es) \<noteq> []"
  by (simp add: path_Join_def path_Clean_nonempty)

lemma EvalSymlinks_nonempty: "filepath_EvalSymlinks h s p = Some q \<Longrightarrow> q \<noteq> []"
  by (auto simp: filepath_EvalSymlinks_def path_Clean_nonempty)

lemma set_List: "set (List s) = fset s"
  by (simp add: List_def)

lemma fold_fst_invariant:
  assumes "\<And>m st x. x \<in> set xs \<Longrightarrow> P m \<Longrightarrow> P (fst (f (m, st) x))"
  shows "P m \<Longrightarrow> P (fst (foldl f (m, st) xs))"
  using assms
proof (induction xs arbitrary: m st)
  case Nil then show ?case by simp
next
  case (Cons x xs)
  have "P (fst (f (m, st) x))" using Cons.prems by simp
  then have "P (fst (foldl f (fst (f (m, st) x), snd (f (m, st) x)) xs))"
    using Cons.prems(2) by (intro Cons.IH) simp_all
  then show ?case by simp
qed

lemma allGood_addDiskToMap:
  assumes "allGood m"
    and "deviceOrDirectory \<lparr>diskNamePath = n, diskID = i, directoryPath = dp\<rparr>"
  shows "allGood (addDiskToMap m sc i n dp)"
proof -
  have old: "\<And>k v l. (k, v) \<in> set m \<Longrightarrow> l \<in> set v \<Longrightarrow> deviceOrDirectory l"
    using assms(1) by (auto simp: allGood_def allLocations_def list_all_iff)
  have "deviceOrDirectory l"
    if "(k, v) \<in> set (addDiskToMap m sc i n dp)" and "l \<in> set v" for k v l
  proof -
    from that(1) consider "(k, v) \<in> set m"
      | "v = (case map_of m sc of None \<Rightarrow> [] | Some a \<Rightarrow> a) @
              [\<lparr>diskNamePath = n, diskID = i, directoryPath = dp\<rparr>]"
      by (auto simp: addDiskToMap_def dest!: set_update_cases)
    then show ?thesis
    proof cases
      case 1 then show ?thesis using old that(2) by blast
    next
      case 2
      then show ?thesis
        using that(2) assms(2) old
        by (auto split: option.splits dest!: map_of_SomeD)
    qed
  qed
  then show ?thesis by (auto simp: allGood_def allLocations_def list_all_iff)
qed

lemma allGood_deviceNameStep:
  "n \<noteq> [] \<Longrightarrow> allGood m \<Longrightarrow> allGood (fst (deviceNameStep h ds ids sc (m, st) n))"
  by (simp add: deviceNameStep_def Let_def allGood_addDiskToMap deviceOrDirectory_def
      split: sum.splits)

lemma allGood_deviceIDStep:
  "allGood m \<Longrightarrow> allGood (fst (deviceIDStep h ds sc (m, st) i))"
  by (auto simp: deviceIDStep_unfold allGood_addDiskToMap deviceOrDirectory_def
      split: option.splits dest: EvalSymlinks_nonempty)

lemma allGood_directoryStep:
  "allGood m \<Longrightarrow> allGood (fst (directoryStep h sc (m, st) dir))"
  by (auto simp: directoryStep_def Let_def allGood_addDiskToMap deviceOrDirectory_def
      path_Join_nonempty rootfsDir_def split: sum.splits prod.splits option.splits)

lemma allGood_storageClassStep:
  assumes "allGood m" and "[] |\<notin>| DeviceNames (snd e)"
  shows "allGood (fst (storageClassStep h ds ids (m, st) e))"
proof -
  obtain sc disks where e: "e = (sc, disks)" by (cases e)
  define a1 where "a1 = foldl (deviceNameStep h ds ids sc) (m, st) (List (DeviceNames disks))"
  define a2 where "a2 = foldl (deviceIDStep h ds sc) a1 (List (DeviceIDs disks))"
  have 1: "allGood (fst a1)"
    unfolding a1_def
  proof (rule fold_fst_invariant [where P = allGood])
    fix m' st' x assume "x \<in> set (List (DeviceNames disks))" and "allGood m'"
    then show "allGood (fst (deviceNameStep h ds ids sc (m', st') x))"
      using assms(2) e by (intro allGood_deviceNameStep) (auto simp: set_List)
  qed (rule assms(1))
  have 2: "allGood (fst a2)"
    unfolding a2_def
    using fold_fst_invariant [of "List (DeviceIDs disks)" allGood "deviceIDStep h ds sc"
        "fst a1" "snd a1"] 1
    by (simp add: allGood_deviceIDStep)
  have 3: "allGood (fst (foldl (directoryStep h sc) a2 (DirectoryPaths disks)))"
    using fold_fst_invariant [of "DirectoryPaths disks" allGood "directoryStep h sc"
        "fst a2" "snd a2"] 2
    by (simp add: allGood_directoryStep)
  show ?thesis using 3 by (simp add: storageClassStep_def e a1_def a2_def)
qed

subsection \<open>The three passes append to the list of the class\<close>

lemma deviceNameStep_unfold:
  "deviceNameStep h ds ids sc (m, st) n =
     (if filepath_Base n |\<in>| ds then addDiskToMap m sc (stableIDOf h (fs st) ids n) n [] else m,
      st)"
  by (simp add: deviceNameStep_def Let_def hasExactDisk_iff stableIDOf_def split: sum.splits)

lemma deviceNames_fold:
  "classList (fst (foldl (deviceNameStep h ds ids sc) (m, st) ns)) sc' =
     classList m sc' @
     (if sc' = sc
      then [\<lparr>diskNamePath = n, diskID = stableIDOf h (fs st) ids n, directoryPath = []\<rparr>.
              n \<leftarrow> ns, filepath_Base n |\<in>| ds]
      else [])"
  by (induction ns arbitrary: m) (simp_all add: deviceNameStep_unfold classList_addDiskToMap)

lemma deviceIDs_fold:
  "classList (fst (foldl (deviceIDStep h ds sc) (m, st) is)) sc' =
     classList m sc' @
     (if sc' = sc
      then [\<lparr>diskNamePath = p, diskID = i, directoryPath = []\<rparr>.
              i \<leftarrow> is,
              p \<leftarrow> (case filepath_EvalSymlinks h (fs st) i of None \<Rightarrow> [] | Some p \<Rightarrow> [p]),
              filepath_Base p |\<in>| ds]
      else [])
   \<and> fs (snd (foldl (deviceIDStep h ds sc) (m, st) is)) = fs st"
proof (induction "is" arbitrary: m st)
  case Nil
  show ?case by simp
next
  case (Cons i ids)
  show ?case
  proof (cases "filepath_EvalSymlinks h (fs st) i")
    case None
    then show ?thesis
      using Cons.IH [of m "report (newEvent ErrorFindingMatchingDisk
                (''unable to add disk-id '' @ i @ '' to local disk pool: '' @
                 ''unable to find device with id '' @ i) i) st"]
      by (simp add: deviceIDStep_unfold report_def)
  next
    case (Some p)
    then show ?thesis
      using Cons.IH [of "if filepath_Base p |\<in>| ds then addDiskToMap m sc i p [] else m" st]
      by (simp add: deviceIDStep_unfold classList_addDiskToMap)
  qed
qed

lemma directoryStep_appends:
  "\<exists>ys. classList (fst (directoryStep h sc (m, st) dir)) sc' = classList m sc' @ ys"
  by (auto simp: directoryStep_def Let_def classList_addDiskToMap
      split: sum.splits prod.splits option.splits)

lemma fold_appends:
  assumes "\<And>m st x. \<exists>ys. classList (fst (f (m, st) x)) sc = classList m sc @ ys"
  shows "\<exists>ys. classList (fst (foldl f (m, st) xs)) sc = classList m sc @ ys"
proof (induction xs arbitrary: m st)
  case Nil show ?case by simp
next
  case (Cons x xs)
  obtain ys where 1: "classList (fst (f (m, st) x)) sc = classList m sc @ ys"
    using assms by blast
  obtain zs where 2: "classList (fst (foldl f (fst (f (m, st) x), snd (f (m, st) x)) xs)) sc =
      classList (fst (f (m, st) x)) sc @ zs"
    using Cons.IH by blast
  show ?case using 1 2 by simp
qed

lemma storageClassStep_lists:
  "\<exists>zs. classList (fst (storageClassStep h ds ids (m, st) (sc, disks))) sc' =
     classList m sc' @
     (if sc' = sc
      then [\<lparr>diskNamePath = n, diskID = stableIDOf h (fs st) ids n, directoryPath = []\<rparr>.
              n \<leftarrow> List (DeviceNames disks), filepath_Base n |\<in>| ds] @
           [\<lparr>diskNamePath = p, diskID = i, directoryPath = []\<rparr>.
              i \<leftarrow> List (DeviceIDs disks),
              p \<leftarrow> (case filepath_EvalSymlinks h (fs st) i of None \<Rightarrow> [] | Some p \<Rightarrow> [p]),
              filepath_Base p |\<in>| ds]
      else []) @ zs"
proof -
  define a1 where "a1 = foldl (deviceNameStep h ds ids sc) (m, st) (List (DeviceNames disks))"
  define a2 where "a2 = foldl (deviceIDStep h ds sc) a1 (List (DeviceIDs disks))"
  have s1: "snd a1 = st" unfolding a1_def by (rule deviceNames_fold_snd)
  have 1: "classList (fst a1) sc' = classList m sc' @
     (if sc' = sc
      then [\<lparr>diskNamePath = n, diskID = stableIDOf h (fs st) ids n, directoryPath = []\<rparr>.
              n \<leftarrow> List (DeviceNames disks), filepath_Base n |\<in>| ds]
      else [])"
    unfolding a1_def by (rule deviceNames_fold)
  have 2: "classList (fst a2) sc' = classList (fst a1) sc' @
     (if sc' = sc
      then [\<lparr>diskNamePath = p, diskID = i, directoryPath = []\<rparr>.
              i \<leftarrow> List (DeviceIDs disks),
              p \<leftarrow> (case filepath_EvalSymlinks h (fs st) i of None \<Rightarrow> [] | Some p \<Rightarrow> [p]),
              filepath_Base p |\<in>| ds]
      else [])"
  proof -
    obtain m1 where eq: "a1 = (m1, st)" using s1 by (cases a1) simp
    show ?thesis
      unfolding a2_def eq
      using deviceIDs_fold [of h ds sc m1 st "List (DeviceIDs disks)" sc'] by simp
  qed
  obtain zs where 3:
    "classList (fst (foldl (directoryStep h sc) a2 (DirectoryPaths disks))) sc' =
       classList (fst a2) sc' @ zs"
    using fold_appends [of "directoryStep h sc" sc' "fst a2" "snd a2" "DirectoryPaths disks"]
      directoryStep_appends [of h sc _ _ _ sc']
    by auto
  show ?thesis
    using 1 2 3 by (auto simp: storageClassStep_def a1_def a2_def)
qed

lemma storageClassStep_appends:
  "\<exists>ys. classList (fst (storageClassStep h ds ids (m, st) e)) sc' = classList m sc' @ ys"
proof -
  obtain sc disks where e: "e = (sc, disks)" by (cases e)
  show ?thesis using storageClassStep_lists [of h ds ids m st sc disks sc'] e by auto
qed

lemma directoryStep_cases:
  "fst (directoryStep h sc (m, st) dir) = m \<or>
   fst (directoryStep h sc (m, st) dir) =
     addDiskToMap m sc [] [] (path_Join [rootfsDir, dir])"
  by (auto simp: directoryStep_def Let_def split: sum.splits prod.splits option.splits)

lemma directories_fold:
  "\<exists>dirs'. subseq dirs' dirs \<and>
     (\<forall>sc'. classList (fst (foldl (directoryStep h sc) (m, st) dirs)) sc' =
        classList m sc' @
        (if sc' = sc
         then map (\<lambda>dir. \<lparr>diskNamePath = [], diskID = [],
                            directoryPath = path_Join [rootfsDir, dir]\<rparr>) dirs'
         else []))"
proof (induction dirs arbitrary: m st)
  case Nil
  show ?case by (rule exI [of _ "[]"]) simp
next
  case (Cons dir dirs)
  let ?mk = "\<lambda>dir. \<lparr>diskNamePath = [], diskID = [],
                       directoryPath = path_Join [rootfsDir, dir]\<rparr>"
  obtain m1 st1 where a: "directoryStep h sc (m, st) dir = (m1, st1)"
    by (cases "directoryStep h sc (m, st) dir")
  obtain ds' where sub: "subseq ds' dirs"
    and rest: "\<And>sc'. classList (fst (foldl (directoryStep h sc) (m1, st1) dirs)) sc' =
        classList m1 sc' @ (if sc' = sc then map ?mk ds' else [])"
    using Cons.IH [of m1 st1] by blast
  consider "m1 = m" | "m1 = addDiskToMap m sc [] [] (path_Join [rootfsDir, dir])"
    using directoryStep_cases [of h sc m st dir] a by auto
  then show ?case
  proof cases
    case 1
    have "subseq ds' (dir # dirs)" using sub by (rule list_emb_Cons)
    moreover have "\<forall>sc'. classList (fst (foldl (directoryStep h sc) (m, st) (dir # dirs))) sc' =
        classList m sc' @ (if sc' = sc then map ?mk ds' else [])"
      using rest 1 a by simp
    ultimately show ?thesis by blast
  next
    case 2
    have "subseq (dir # ds') (dir # dirs)" using sub by simp
    moreover have "\<forall>sc'. classList (fst (foldl (directoryStep h sc) (m, st) (dir # dirs))) sc' =
        classList m sc' @ (if sc' = sc then map ?mk (dir # ds') else [])"
      using rest 2 a by (simp add: classList_addDiskToMap)
    ultimately show ?thesis by blast
  qed
qed

lemma storageClassStep_exact:
  "\<exists>dirs. subseq dirs (DirectoryPaths disks) \<and>
     (\<forall>sc'. classList (fst (storageClassStep h ds ids (m, st) (sc, disks))) sc' =
        classList m sc' @
        (if sc' = sc
         then [\<lparr>diskNamePath = n, diskID = stableIDOf h (fs st) ids n, directoryPath = []\<rparr>.
                 n \<leftarrow> List (DeviceNames disks), filepath_Base n |\<in>| ds] @
              [\<lparr>diskNamePath = p, diskID = i, directoryPath = []\<rparr>.
                 i \<leftarrow> List (DeviceIDs disks),
                 p \<leftarrow> (case filepath_EvalSymlinks h (fs st) i of None \<Rightarrow> [] | Some p \<Rightarrow> [p]),
                 filepath_Base p |\<in>| ds] @
              map (\<lambda>dir. \<lparr>diskNamePath = [], diskID = [],
                            directoryPath = path_Join [rootfsDir, dir]\<rparr>) dirs
         else []))"
proof -
  define a1 where "a1 = foldl (deviceNameStep h ds ids sc) (m, st) (List (DeviceNames disks))"
  define a2 where "a2 = foldl (deviceIDStep h ds sc) a1 (List (DeviceIDs disks))"
  have s1: "snd a1 = st" unfolding a1_def by (rule deviceNames_fold_snd)
  then obtain m1 where eq: "a1 = (m1, st)" by (cases a1) simp
  have 1: "\<And>sc'. classList (fst a1) sc' = classList m sc' @
     (if sc' = sc
      then [\<lparr>diskNamePath = n, diskID = stableIDOf h (fs st) ids n, directoryPath = []\<rparr>.
              n \<leftarrow> List (DeviceNames disks), filepath_Base n |\<in>| ds]
      else [])"
    unfolding a1_def by (rule deviceNames_fold)
  have 2: "\<And>sc'. classList (fst a2) sc' = classList (fst a1) sc' @
     (if sc' = sc
      then [\<lparr>diskNamePath = p, diskID = i, directoryPath = []\<rparr>.
              i \<leftarrow> List (DeviceIDs disks),
              p \<leftarrow> (case filepath_EvalSymlinks h (fs st) i of None \<Rightarrow> [] | Some p \<Rightarrow> [p]),
              filepath_Base p |\<in>| ds]
      else [])"
    unfolding a2_def eq
    using deviceIDs_fold [of h ds sc m1 st "List (DeviceIDs disks)"] by simp
  obtain dirs where sub: "subseq dirs (DirectoryPaths disks)"
    and 3: "\<And>sc'. classList (fst (foldl (directoryStep h sc) (fst a2, snd a2)
                                      (DirectoryPaths disks))) sc' =
       classList (fst a2) sc' @
       (if sc' = sc
        then map (\<lambda>dir. \<lparr>diskNamePath = [], diskID = [],
                           directoryPath = path_Join [rootfsDir, dir]\<rparr>) dirs
        else [])"
    using directories_fold [of "DirectoryPaths disks" h sc "fst a2" "snd a2"] by blast
  have "\<forall>sc'. classList (fst (storageClassStep h ds ids (m, st) (sc, disks))) sc' =
        classList m sc' @
        (if sc' = sc
         then [\<lparr>diskNamePath = n, diskID = stableIDOf h (fs st) ids n, directoryPath = []\<rparr>.
                 n \<leftarrow> List (DeviceNames disks), filepath_Base n |\<in>| ds] @
              [\<lparr>diskNamePath = p, diskID = i, directoryPath = []\<rparr>.
                 i \<leftarrow> List (DeviceIDs disks),
                 p \<leftarrow> (case filepath_EvalSymlinks h (fs st) i of None \<Rightarrow> [] | Some p \<Rightarrow> [p]),
                 filepath_Base p |\<in>| ds] @
              map (\<lambda>dir. \<lparr>diskNamePath = [], diskID = [],
                            directoryPath = path_Join [rootfsDir, dir]\<rparr>) dirs
         else [])"
    using 1 2 3 by (simp add: storageClassStep_def a1_def a2_def)
  then show ?thesis using sub by blast
qed

subsection \<open>The locations of each pass\<close>

text \<open>
  Claim C4. When no configured device name is the empty string, every device location
  that \<open>findMatchingDisks\<close> returns, in any storage class, has exactly one of the
  device path and the directory path non-empty. Pass by pass, for a storage class of
  the configuration, visited with any device map and in any state of the file system:
  \<^item> the pass over the device names appends, for every configured name whose base name
    is in the set of unmounted devices, a location with that name as device path, the
    stable id found for it (or none) and no directory path;
  \<^item> the pass over the device identifiers appends, for every configured identifier
    that resolves to a device of the set, a location with the resolved path as device
    path, the identifier as id, and no directory path;
  \<^item> the pass over the directories appends, for some of the configured directories
    (in their order), a location with the path of the directory under the root file
    system of the host as directory path, and neither device path nor id.

  The locations of the first two passes are for a device, those of the third for a
  directory, and the list of the class grows by exactly these locations; the lists of
  the other classes do not change. (The device path of an identifier is the result of
  \<open>filepath.EvalSymlinks\<close>, which is cleaned and so never empty; the claim's
  condition on the identifiers is not needed.)
\<close>

theorem findMatchingDisks_device_or_directory:
  assumes "list_all (\<lambda>e. [] |\<notin>| DeviceNames (snd e)) (Disks diskConfig)"
    and "(sc, disks) \<in> set (Disks diskConfig)"
  shows "list_all deviceOrDirectory
           (allLocations (fst (fst (findMatchingDisks h diskConfig deviceSet allDiskIds st))))
       \<and> list_all deviceLocation
           [\<lparr>diskNamePath = n, diskID = stableIDOf h (fs st') allDiskIds n, directoryPath = []\<rparr>.
              n \<leftarrow> List (DeviceNames disks), filepath_Base n |\<in>| deviceSet]
       \<and> list_all deviceLocation
           [\<lparr>diskNamePath = p, diskID = i, directoryPath = []\<rparr>.
              i \<leftarrow> List (DeviceIDs disks),
              p \<leftarrow> (case filepath_EvalSymlinks h (fs st') i of None \<Rightarrow> [] | Some p \<Rightarrow> [p]),
              filepath_Base p |\<in>| deviceSet]
       \<and> (\<exists>dirs. subseq dirs (DirectoryPaths disks)
            \<and> list_all directoryLocation
                (map (\<lambda>dir. \<lparr>diskNamePath = [], diskID = [],
                              directoryPath = path_Join [rootfsDir, dir]\<rparr>) dirs)
            \<and> (\<forall>sc'. classList (fst (storageClassStep h deviceSet allDiskIds (m, st')
                                       (sc, disks))) sc' =
                 classList m sc' @
                 (if sc' = sc
                  then [\<lparr>diskNamePath = n, diskID = stableIDOf h (fs st') allDiskIds n,
                          directoryPath = []\<rparr>.
                          n \<leftarrow> List (DeviceNames disks), filepath_Base n |\<in>| deviceSet] @
                       [\<lparr>diskNamePath = p, diskID = i, directoryPath = []\<rparr>.
                          i \<leftarrow> List (DeviceIDs disks),
                          p \<leftarrow> (case filepath_EvalSymlinks h (fs st') i of
                                  None \<Rightarrow> [] | Some p \<Rightarrow> [p]),
                          filepath_Base p |\<in>| deviceSet] @
                       map (\<lambda>dir. \<lparr>diskNamePath = [], diskID = [],
                                     directoryPath = path_Join [rootfsDir, dir]\<rparr>) dirs
                  else [])))"
proof -
  have "allGood (fst (foldl (storageClassStep h deviceSet allDiskIds) ([], st) (Disks diskConfig)))"
  proof (rule fold_fst_invariant [where P = allGood])
    fix m' st' x assume "x \<in> set (Disks diskConfig)" and "allGood m'"
    then show "allGood (fst (storageClassStep h deviceSet allDiskIds (m', st') x))"
      using assms(1) by (intro allGood_storageClassStep) (auto simp: list_all_iff)
  next
    show "allGood []" by (simp add: allGood_def allLocations_def)
  qed
  then have all: "list_all deviceOrDirectory
      (allLocations (fst (fst (findMatchingDisks h diskConfig deviceSet allDiskIds st))))"
    by (simp add: findMatchingDisks_def case_prod_beta allGood_def)
  have ne: "[] |\<notin>| DeviceNames disks"
    using assms by (auto simp: list_all_iff)
  have names: "list_all deviceLocation
      [\<lparr>diskNamePath = n, diskID = stableIDOf h (fs st') allDiskIds n, directoryPath = []\<rparr>.
         n \<leftarrow> List (DeviceNames disks), filepath_Base n |\<in>| deviceSet]"
    using ne by (auto simp: list_all_iff deviceLocation_def set_List)
  have ids: "list_all deviceLocation
      [\<lparr>diskNamePath = p, diskID = i, directoryPath = []\<rparr>.
         i \<leftarrow> List (DeviceIDs disks),
         p \<leftarrow> (case filepath_EvalSymlinks h (fs st') i of None \<Rightarrow> [] | Some p \<Rightarrow> [p]),
         filepath_Base p |\<in>| deviceSet]"
    by (auto simp: list_all_iff deviceLocation_def split: option.splits
        dest: EvalSymlinks_nonempty [OF sym])
  have dirs: "list_all directoryLocation
      (map (\<lambda>dir. \<lparr>diskNamePath = [], diskID = [],
                    directoryPath = path_Join [rootfsDir, dir]\<rparr>) dirs)" for dirs
    by (simp add: list_all_iff directoryLocation_def path_Join_nonempty rootfsDir_def)
  show ?thesis
    using all names ids dirs storageClassStep_exact [of disks h deviceSet allDiskIds m st' sc]
    by blast
qed

theorem findMatchingDisks_device_or_directory_witness:
  "list_all (\<lambda>e. [] |\<notin>| DeviceNames (snd e))
     (Disks \<lparr>Disks = [(''ssd'', \<lparr>DeviceNames = {|''/dev/sdb''|},
                                 DeviceIDs = {|''/dev/disk/by-id/ata-X''|},
                                 DirectoryPaths = [''shared1'']\<rparr>)]\<rparr>)
   \<and> (''ssd'', \<lparr>DeviceNames = {|''/dev/sdb''|}, DeviceIDs = {|''/dev/disk/by-id/ata-X''|},
                DirectoryPaths = [''shared1'']\<rparr>)
       \<in> set (Disks \<lparr>Disks = [(''ssd'', \<lparr>DeviceNames = {|''/dev/sdb''|},
                                          DeviceIDs = {|''/dev/disk/by-id/ata-X''|},
                                          DirectoryPaths = [''shared1'']\<rparr>)]\<rparr>)
   \<and> list_all deviceOrDirectory
        (allLocations (fst (fst (findMatchingDisks
           (exampleHost ''sdb'' [(''/dev/disk/by-id/ata-X'', ''/dev/sdb'')] [] False)
           \<lparr>Disks = [(''ssd'', \<lparr>DeviceNames = {|''/dev/sdb''|},
                               DeviceIDs = {|''/dev/disk/by-id/ata-X''|},
                               DirectoryPaths = [''shared1'']\<rparr>)]\<rparr>
           {|''sdb''|} [''/dev/disk/by-id/ata-X''] (exampleWorld [])))))
   \<and> classList (fst (storageClassStep
          (exampleHost ''sdb'' [(''/dev/disk/by-id/ata-X'', ''/dev/sdb'')] [] False)
          {|''sdb''|} [''/dev/disk/by-id/ata-X''] ([], exampleWorld [])
          (''ssd'', \<lparr>DeviceNames = {|''/dev/sdb''|}, DeviceIDs = {|''/dev/disk/by-id/ata-X''|},
                     DirectoryPaths = [''shared1'']\<rparr>))) ''ssd'' =
       [\<lparr>diskNamePath = ''/dev/sdb'', diskID = ''/dev/disk/by-id/ata-X'', directoryPath = []\<rparr>,
        \<lparr>diskNamePath = ''/dev/sdb'', diskID = ''/dev/disk/by-id/ata-X'', directoryPath = []\<rparr>,
        \<lparr>diskNamePath = [], diskID = [], directoryPath = ''/rootfs/shared1''\<rparr>]
   \<and> deviceLocation
       \<lparr>diskNamePath = ''/dev/sdb'', diskID = ''/dev/disk/by-id/ata-X'', directoryPath = []\<rparr>
   \<and> directoryLocation
       \<lparr>diskNamePath = [], diskID = [], directoryPath = ''/rootfs/shared1''\<rparr>"
proof -
  let ?h = "exampleHost ''sdb'' [(''/dev/disk/by-id/ata-X'', ''/dev/sdb'')] [] False"
  let ?disks = "\<lparr>DeviceNames = {|''/dev/sdb''|}, DeviceIDs = {|''/dev/disk/by-id/ata-X''|},
                 DirectoryPaths = [''shared1'']\<rparr>"
  let ?cfg = "\<lparr>Disks = [(''ssd'', ?disks)]\<rparr>"
  have h1: "list_all (\<lambda>e. [] |\<notin>| DeviceNames (snd e)) (Disks ?cfg)" by simp
  have h2: "(''ssd'', ?disks) \<in> set (Disks ?cfg)" by simp
  have ev: "classList (fst (storageClassStep ?h {|''sdb''|} [''/dev/disk/by-id/ata-X'']
                 ([], exampleWorld []) (''ssd'', ?disks))) ''ssd'' =
       [\<lparr>diskNamePath = ''/dev/sdb'', diskID = ''/dev/disk/by-id/ata-X'', directoryPath = []\<rparr>,
        \<lparr>diskNamePath = ''/dev/sdb'', diskID = ''/dev/disk/by-id/ata-X'', directoryPath = []\<rparr>,
        \<lparr>diskNamePath = [], diskID = [], directoryPath = ''/rootfs/shared1''\<rparr>]"
    by (simp add: storageClassStep_def deviceNameStep_unfold deviceIDStep_unfold
        directoryStep_def Let_def stableIDOf_def filepath_EvalSymlinks_def rootfsDir_def
        host_eval path_eval List_single List_empty classList_def addDiskToMap_def)
  have "list_all deviceOrDirectory
        (allLocations (fst (fst (findMatchingDisks ?h ?cfg {|''sdb''|}
           [''/dev/disk/by-id/ata-X''] (exampleWorld [])))))"
    using findMatchingDisks_device_or_directory
      [OF h1 h2, of ?h "{|''sdb''|}" "[''/dev/disk/by-id/ata-X'']" "exampleWorld []"]
    by (rule conjunct1)
  then show ?thesis
    using h1 h2 ev by (simp add: deviceLocation_def directoryLocation_def)
qed

subsection \<open>A device matched by name and by identifier\<close>

text \<open>
  Claim C3. A device that qualifies under both selectors of a storage class: its name
  is among the device names of the class with its base name in the set of unmounted
  devices, and one of the device identifiers of the class resolves to it (in whatever
  state the file system is when the class is visited). Then the list that
  \<open>findMatchingDisks\<close> returns for the class holds two separate locations for the
  device: first the one of the pass over the names (with the stable id found for the
  name, or none), later the one of the pass over the identifiers (with the configured
  identifier). The passes only append; nothing is removed or merged.
\<close>

theorem device_matched_by_name_and_by_id:
  assumes "(sc, disks) \<in> set (Disks diskConfig)"
    and "name |\<in>| DeviceNames disks"
    and "filepath_Base name |\<in>| deviceSet"
    and "deviceID |\<in>| DeviceIDs disks"
    and "\<forall>s. filepath_EvalSymlinks h s deviceID = Some name"
  shows "\<exists>xs ys zs stableDeviceID.
           classList (fst (fst (findMatchingDisks h diskConfig deviceSet allDiskIds st))) sc =
             xs @ \<lparr>diskNamePath = name, diskID = stableDeviceID, directoryPath = []\<rparr> #
             ys @ \<lparr>diskNamePath = name, diskID = deviceID, directoryPath = []\<rparr> # zs"
proof -
  let ?f = "storageClassStep h deviceSet allDiskIds"
  obtain pre post where split: "Disks diskConfig = pre @ (sc, disks) # post"
    using assms(1) by (meson split_list)
  obtain m1 st1 where a1: "foldl ?f ([], st) pre = (m1, st1)"
    by (cases "foldl ?f ([], st) pre")
  let ?A = "[\<lparr>diskNamePath = n, diskID = stableIDOf h (fs st1) allDiskIds n, directoryPath = []\<rparr>.
              n \<leftarrow> List (DeviceNames disks), filepath_Base n |\<in>| deviceSet]"
  let ?B = "[\<lparr>diskNamePath = p, diskID = i, directoryPath = []\<rparr>.
              i \<leftarrow> List (DeviceIDs disks),
              p \<leftarrow> (case filepath_EvalSymlinks h (fs st1) i of None \<Rightarrow> [] | Some p \<Rightarrow> [p]),
              filepath_Base p |\<in>| deviceSet]"
  obtain cs where 2: "classList (fst (?f (m1, st1) (sc, disks))) sc = classList m1 sc @ ?A @ ?B @ cs"
    using storageClassStep_lists [of h deviceSet allDiskIds m1 st1 sc disks sc] by auto
  obtain ds where 3:
    "classList (fst (foldl ?f (fst (?f (m1, st1) (sc, disks)), snd (?f (m1, st1) (sc, disks))) post)) sc =
       classList (fst (?f (m1, st1) (sc, disks))) sc @ ds"
    using fold_appends [of ?f sc] storageClassStep_appends [of h deviceSet allDiskIds _ _ _ sc]
    by blast
  have "\<lparr>diskNamePath = name, diskID = stableIDOf h (fs st1) allDiskIds name, directoryPath = []\<rparr>
          \<in> set ?A"
    using assms(2,3) by (auto simp: List_def)
  then obtain a1 a2 where A: "?A = a1 @
      \<lparr>diskNamePath = name, diskID = stableIDOf h (fs st1) allDiskIds name, directoryPath = []\<rparr> # a2"
    by (meson split_list)
  have "\<lparr>diskNamePath = name, diskID = deviceID, directoryPath = []\<rparr> \<in> set ?B"
    using assms(3,4,5) by (auto simp: List_def)
  then obtain b1 b2 where B: "?B = b1 @
      \<lparr>diskNamePath = name, diskID = deviceID, directoryPath = []\<rparr> # b2"
    by (meson split_list)
  have "classList (fst (fst (findMatchingDisks h diskConfig deviceSet allDiskIds st))) sc =
      classList m1 sc @ ?A @ ?B @ cs @ ds"
    using split a1 2 3 by (simp add: findMatchingDisks_def case_prod_beta)
  also have "\<dots> = (classList m1 sc @ a1) @
      \<lparr>diskNamePath = name, diskID = stableIDOf h (fs st1) allDiskIds name, directoryPath = []\<rparr> #
      (a2 @ b1) @ \<lparr>diskNamePath = name, diskID = deviceID, directoryPath = []\<rparr> #
      (b2 @ cs @ ds)"
    by (simp only: A B append_assoc append_Cons)
  finally show ?thesis by blast
qed

theorem device_matched_by_name_and_by_id_witness:
  "(''ssd'', \<lparr>DeviceNames = {|''/dev/sdb''|}, DeviceIDs = {|''/dev/disk/by-id/ata-X''|},
             DirectoryPaths = []\<rparr>)
     \<in> set (Disks \<lparr>Disks = [(''ssd'', \<lparr>DeviceNames = {|''/dev/sdb''|},
                                        DeviceIDs = {|''/dev/disk/by-id/ata-X''|},
                                        DirectoryPaths = []\<rparr>)]\<rparr>)
   \<and> ''/dev/sdb'' |\<in>| DeviceNames \<lparr>DeviceNames = {|''/dev/sdb''|},
                          DeviceIDs = {|''/dev/disk/by-id/ata-X''|}, DirectoryPaths = []\<rparr>
   \<and> filepath_Base ''/dev/sdb'' |\<in>| {|''sdb''|}
   \<and> ''/dev/disk/by-id/ata-X'' |\<in>| DeviceIDs \<lparr>DeviceNames = {|''/dev/sdb''|},
                          DeviceIDs = {|''/dev/disk/by-id/ata-X''|}, DirectoryPaths = []\<rparr>
   \<and> (\<forall>s. filepath_EvalSymlinks
             (exampleHost ''sdb'' [(''/dev/disk/by-id/ata-X'', ''/dev/sdb'')] [] False) s
             ''/dev/disk/by-id/ata-X'' = Some ''/dev/sdb'')
   \<and> classList (fst (fst (findMatchingDisks
          (exampleHost ''sdb'' [(''/dev/disk/by-id/ata-X'', ''/dev/sdb'')] [] False)
          \<lparr>Disks = [(''ssd'', \<lparr>DeviceNames = {|''/dev/sdb''|},
                              DeviceIDs = {|''/dev/disk/by-id/ata-X''|},
                              DirectoryPaths = []\<rparr>)]\<rparr>
          {|''sdb''|} [''/dev/disk/by-id/ata-X''] (exampleWorld [])))) ''ssd'' =
       [\<lparr>diskNamePath = ''/dev/sdb'', diskID = ''/dev/disk/by-id/ata-X'', directoryPath = []\<rparr>,
        \<lparr>diskNamePath = ''/dev/sdb'', diskID = ''/dev/disk/by-id/ata-X'', directoryPath = []\<rparr>]"
  using device_matched_by_name_and_by_id
    [of "''ssd''" "\<lparr>DeviceNames = {|''/dev/sdb''|}, DeviceIDs = {|''/dev/disk/by-id/ata-X''|},
                    DirectoryPaths = []\<rparr>"
        "\<lparr>Disks = [(''ssd'', \<lparr>DeviceNames = {|''/dev/sdb''|},
                                        DeviceIDs = {|''/dev/disk/by-id/ata-X''|},
                                        DirectoryPaths = []\<rparr>)]\<rparr>"
        "''/dev/sdb''" "{|''sdb''|}" "''/dev/disk/by-id/ata-X''"
        "exampleHost ''sdb'' [(''/dev/disk/by-id/ata-X'', ''/dev/sdb'')] [] False"
        "[''/dev/disk/by-id/ata-X'']" "exampleWorld []"]
  by (simp add: findMatchingDisks_def storageClassStep_def deviceNameStep_unfold
      deviceIDStep_unfold stableIDOf_def filepath_EvalSymlinks_def exampleHost_def path_eval
      List_single List_empty classList_def addDiskToMap_def)

subsection \<open>Cleaning a clean path\<close>

lemma Split_nonempty: "strings_Split s sep \<noteq> []"
  by (induction s) (auto split: list.splits)

lemma Split_append:
  "strings_Split (a @ sep # y) sep = strings_Split a sep @ strings_Split y sep"
proof (induction a)
  case Nil show ?case by simp
next
  case (Cons c a)
  show ?case
  proof (cases "c = sep")
    case True then show ?thesis using Cons.IH by simp
  next
    case False
    obtain x xs where sp: "strings_Split a sep = x # xs"
      using Split_nonempty [of a sep] by (cases "strings_Split a sep") auto
    show ?thesis using False Cons.IH sp by simp
  qed
qed

lemma Split_no_sep: "sep \<notin> set e \<Longrightarrow> strings_Split e sep = [e]"
  by (induction e) auto

lemma Split_pieces: "e \<in> set (strings_Split p sep) \<Longrightarrow> sep \<notin> set e"
proof (induction p arbitrary: e)
  case Nil then show ?case by simp
next
  case (Cons c p)
  obtain x xs where sp: "strings_Split p sep = x # xs"
    using Split_nonempty [of p sep] by (cases "strings_Split p sep") auto
  show ?case
  proof (cases "c = sep")
    case True then show ?thesis using Cons by auto
  next
    case False
    then have "e = c # x \<or> e \<in> set xs" using Cons.prems sp by simp
    then show ?thesis using Cons.IH sp False by auto
  qed
qed

lemma Split_Join:
  "comps \<noteq> [] \<Longrightarrow> \<forall>c \<in> set comps. CHR ''/'' \<notin> set c \<Longrightarrow>
   strings_Split (strings_Join comps ''/'') CHR ''/'' = comps"
proof (induction comps "''/''" rule: strings_Join.induct)
  case 1 then show ?case by simp
next
  case (2 x) then show ?case by (simp add: Split_no_sep)
next
  case (3 x y ys)
  have "strings_Split (x @ CHR ''/'' # strings_Join (y # ys) ''/'') CHR ''/'' =
        strings_Split x CHR ''/'' @ strings_Split (strings_Join (y # ys) ''/'') CHR ''/''"
    by (rule Split_append)
  then show ?case using 3 by (simp add: Split_no_sep)
qed

lemma all_dotdot_normal: "\<not> rooted \<Longrightarrow> list_all (\<lambda>x. x = ''..'') out \<Longrightarrow> normalOut rooted out"
  by (induction out) auto

lemma normalOut_tail: "normalOut rooted (e # out) \<Longrightarrow> normalOut rooted out"
  by (auto simp: all_dotdot_normal split: if_splits)

lemma normalOut_elems: "normalOut rooted out \<Longrightarrow> e \<in> set out \<Longrightarrow> e \<noteq> [] \<and> CHR ''/'' \<notin> set e"
proof (induction out)
  case Nil then show ?case by simp
next
  case (Cons a out)
  show ?case
  proof (cases "a = ''..''")
    case True
    then have "list_all (\<lambda>x. x = ''..'') out" using Cons.prems(1) by simp
    then have "\<forall>x\<in>set out. x = ''..''" by (simp only: list_all_iff)
    then have "e = ''..''" using Cons.prems(2) True by (metis set_ConsD)
    then show ?thesis by simp
  next
    case False
    then have "a \<noteq> [] \<and> CHR ''/'' \<notin> set a \<and> normalOut rooted out"
      using Cons.prems(1) by simp
    then show ?thesis using Cons.IH Cons.prems(2) by (metis set_ConsD)
  qed
qed

lemma cleanStep_normal:
  assumes "normalOut rooted out" and "CHR ''/'' \<notin> set e"
  shows "normalOut rooted (cleanStep rooted out e)"
proof (cases out)
  case Nil
  then show ?thesis using assms by (auto simp: cleanStep_def)
next
  case (Cons x xs)
  then show ?thesis using assms normalOut_tail [of rooted x xs]
    by (auto simp: cleanStep_def split: if_splits)
qed

lemma fold_cleanStep_normal:
  "normalOut rooted out \<Longrightarrow> \<forall>e \<in> set es. CHR ''/'' \<notin> set e \<Longrightarrow>
   normalOut rooted (foldl (cleanStep rooted) out es)"
  by (induction es arbitrary: out) (simp_all add: cleanStep_normal)

lemma cleanStep_refold: "normalOut rooted (e # out) \<Longrightarrow> cleanStep rooted out e = e # out"
  by (cases out) (auto simp: cleanStep_def split: if_splits)

lemma fold_cleanStep_refold:
  "normalOut rooted out \<Longrightarrow> foldl (cleanStep rooted) [] (rev out) = out"
proof (induction out)
  case Nil show ?case by simp
next
  case (Cons e out)
  then have "foldl (cleanStep rooted) [] (rev out) = out" using normalOut_tail by blast
  then show ?case using Cons.prems by (simp add: cleanStep_refold)
qed

lemma hd_Join: "comps \<noteq> [] \<Longrightarrow> hd comps \<noteq> [] \<Longrightarrow> hd (strings_Join comps sep) = hd (hd comps)"
  by (induction comps sep rule: strings_Join.induct) auto

lemma Join_nonempty: "comps \<noteq> [] \<Longrightarrow> hd comps \<noteq> [] \<Longrightarrow> strings_Join comps sep \<noteq> []"
  by (induction comps sep rule: strings_Join.induct) auto

lemma path_Clean_dot: "path_Clean (path_Clean p @ ''/.'') = path_Clean p"
proof (cases "p = []")
  case True
  then show ?thesis by (simp add: path_Clean_def cleanStep_def)
next
  case False
  define rooted where "rooted = (hd p = CHR ''/'')"
  define out where "out = foldl (cleanStep rooted) [] (strings_Split p CHR ''/'')"
  have norm: "normalOut rooted out"
    unfolding out_def by (rule fold_cleanStep_normal) (auto dest: Split_pieces)
  have cp: "path_Clean p =
      (if (if rooted then ''/'' else []) @ strings_Join (rev out) ''/'' = [] then ''.''
       else (if rooted then ''/'' else []) @ strings_Join (rev out) ''/'')"
    using False by (simp add: path_Clean_def Let_def rooted_def out_def)
  show ?thesis
  proof (cases "out = []")
    case True
    then show ?thesis using cp by (cases rooted) (simp_all add: path_Clean_def cleanStep_def)
  next
    case ne: False
    let ?comps = "rev out"
    have comps: "?comps \<noteq> []" "\<forall>c \<in> set ?comps. CHR ''/'' \<notin> set c" "hd ?comps \<noteq> []"
      using ne norm normalOut_elems [of rooted out] by (auto simp: hd_rev)
    have hd1: "hd (hd ?comps) \<noteq> CHR ''/''"
      using comps ne by (metis hd_in_set list.set_sel(1))
    let ?j = "strings_Join ?comps ''/''"
    have jne: "?j \<noteq> []" using comps by (simp add: Join_nonempty)
    have hdj: "hd ?j \<noteq> CHR ''/''" using comps hd1 by (simp add: hd_Join)
    have spj: "strings_Split (?j @ ''/.'') CHR ''/'' = ?comps @ [''.'']"
      using Split_append [of ?j "CHR ''/''" "''.''"] comps by (simp add: Split_Join)
    have refold: "foldl (cleanStep rooted) [] ?comps = out"
      using norm by (rule fold_cleanStep_refold)
    show ?thesis
    proof (cases rooted)
      case True
      then have c: "path_Clean p = CHR ''/'' # ?j" using cp by simp
      have "path_Clean (CHR ''/'' # ?j @ ''/.'') = CHR ''/'' # ?j"
        using spj refold True by (simp add: path_Clean_def Let_def cleanStep_def)
      then show ?thesis using c by simp
    next
      case False
      then have c: "path_Clean p = ?j" using cp jne by simp
      have "path_Clean (?j @ ''/.'') = ?j"
        using spj refold False jne hdj
        by (simp add: path_Clean_def Let_def cleanStep_def)
      then show ?thesis using c by simp
    qed
  qed
qed

lemma path_Join_dot:
  assumes "path_Join [a, b] \<noteq> []"
  shows "path_Join [path_Join [a, b], filepath_Base []] = path_Join [a, b]"
proof -
  obtain x where x: "path_Join [a, b] = path_Clean x"
    using assms by (auto simp: path_Join_def split: list.splits)
  have "path_Join [path_Clean x, ''.''] = path_Clean (path_Clean x @ ''/.'')"
    by (simp add: path_Join_def path_Clean_nonempty)
  then show ?thesis using x by (simp add: path_Clean_dot filepath_Base_def)
qed

subsection \<open>Linking a directory location\<close>

text \<open>
  Claim C10. A directory location (a directory path and no device path), where the
  class directory that \<open>MkdirAll\<close> reported as created is a path that exists. The
  symlink path computed from the empty device path is the class directory itself
  (\<open>filepath.Base\<close> of the empty path is \<open>.\<close>, which \<open>path.Join\<close> cleans away). So
  whether the bind placeholder exists or not, the loop body ends in a skip: the only
  call is the \<open>MkdirAll\<close> of the class directory, no symbolic link is created, and
  no event is reported for the location; the one event possible is the error event of
  a failed \<open>MkdirAll\<close>, which names no device.
\<close>

theorem symLinkDisk_directory_location:
  assumes "directoryPath loc \<noteq> []"
    and "diskNamePath loc = []"
    and "mkdirAll h (path_Join [symlinkLocation d, sc]) st = (err, st1)"
    and "err = None \<Longrightarrow>
           path_Join [symlinkLocation d, sc] \<noteq> [] \<and>
           fileExists h (fs st1) (path_Join [symlinkLocation d, sc])"
  shows "path_Join [path_Join [symlinkLocation d, sc], filepath_Base (diskNamePath loc)] =
           (if path_Join [symlinkLocation d, sc] = [] then ''.''
            else path_Join [symlinkLocation d, sc])
       \<and> calls (symLinkDisk h d sc st loc) =
           calls st @ [MkdirAll (path_Join [symlinkLocation d, sc])]
       \<and> fs (symLinkDisk h d sc st loc) = fs st1
       \<and> events (symLinkDisk h d sc st loc) =
           events st @
           (case err of
              None \<Rightarrow> []
            | Some e \<Rightarrow>
                [newEvent ErrorFindingMatchingDisk
                   (''error creating symlink dir '' @ path_Join [symlinkLocation d, sc] @
                    '': '' @ e) []])"
proof -
  let ?dir = "path_Join [symlinkLocation d, sc]"
  have p: "path_Join [?dir, filepath_Base (diskNamePath loc)] =
             (if ?dir = [] then ''.'' else ?dir)"
    using path_Join_dot [of "symlinkLocation d" sc] assms(2)
    by (auto simp: path_Join_def path_Clean_def cleanStep_def filepath_Base_def)
  have st1: "calls st1 = calls st @ [MkdirAll ?dir] \<and> events st1 = events st"
    using assms(3) by (auto simp: mkdirAll_def split: prod.splits)
  show ?thesis
  proof (cases err)
    case None
    then have ex: "?dir \<noteq> []" "fileExists h (fs st1) ?dir" using assms(4) by simp_all
    have "symLinkDisk h d sc st loc = st1"
      using assms(3) None ex p by (simp add: symLinkDisk_def Let_def)
    then show ?thesis using p st1 None by simp
  next
    case (Some e)
    then have "symLinkDisk h d sc st loc =
        report (newEvent ErrorFindingMatchingDisk
                  (''error creating symlink dir '' @ ?dir @ '': '' @ e) []) st1"
      using assms(3) by (simp add: symLinkDisk_def Let_def)
    then show ?thesis using p st1 Some by (simp add: report_def)
  qed
qed

theorem symLinkDisk_directory_location_witness:
  "directoryPath \<lparr>diskNamePath = [], diskID = [], directoryPath = ''/rootfs/shared1''\<rparr> \<noteq> []
   \<and> diskNamePath \<lparr>diskNamePath = [], diskID = [], directoryPath = ''/rootfs/shared1''\<rparr> = []
   \<and> mkdirAll (exampleHost [] [] [] False) (path_Join [symlinkLocation exampleMaker, ''nfs''])
        (exampleWorld []) =
        (None, \<lparr>fs = [''/mnt/local-storage/nfs''], events = [],
                calls = [MkdirAll ''/mnt/local-storage/nfs'']\<rparr>)
   \<and> path_Join [symlinkLocation exampleMaker, ''nfs''] \<noteq> []
   \<and> fileExists (exampleHost [] [] [] False) [''/mnt/local-storage/nfs'']
        (path_Join [symlinkLocation exampleMaker, ''nfs''])
   \<and> calls (symLinkDisk (exampleHost [] [] [] False) exampleMaker ''nfs'' (exampleWorld [])
        \<lparr>diskNamePath = [], diskID = [], directoryPath = ''/rootfs/shared1''\<rparr>) =
        [MkdirAll ''/mnt/local-storage/nfs'']
   \<and> events (symLinkDisk (exampleHost [] [] [] False) exampleMaker ''nfs'' (exampleWorld [])
        \<lparr>diskNamePath = [], diskID = [], directoryPath = ''/rootfs/shared1''\<rparr>) = []"
  using symLinkDisk_directory_location
    [of "\<lparr>diskNamePath = [], diskID = [], directoryPath = ''/rootfs/shared1''\<rparr>"
        "exampleHost [] [] [] False" exampleMaker "''nfs''" "exampleWorld []" None
        "\<lparr>fs = [''/mnt/local-storage/nfs''], events = [],
          calls = [MkdirAll ''/mnt/local-storage/nfs'']\<rparr>"]
  by (simp add: path_eval host_eval)

subsection \<open>The set of unmounted devices\<close>

lemma TrimLeft_no_leading: "leadingSpace (TrimLeft s) = None"
proof (induction s rule: TrimLeft.induct)
  case (1 s)
  show ?case
  proof (cases "leadingSpace s")
    case None
    then show ?thesis by (subst TrimLeft.simps) simp
  next
    case (Some w)
    then show ?thesis using 1 by (subst TrimLeft.simps) simp
  qed
qed

lemma TrimRight_no_trailing: "trailingSpace (TrimRight s) = None"
proof (induction s rule: TrimRight.induct)
  case (1 s)
  show ?case
  proof (cases "trailingSpace s")
    case None
    then show ?thesis by (subst TrimRight.simps) simp
  next
    case (Some w)
    then show ?thesis using 1 by (subst TrimRight.simps) simp
  qed
qed

lemma TrimRight_prefix: "\<exists>n. TrimRight s = take n s"
proof (induction s rule: TrimRight.induct)
  case (1 s)
  show ?case
  proof (cases "trailingSpace s")
    case None
    then have "TrimRight s = take (length s) s" by (subst TrimRight.simps) simp
    then show ?thesis by blast
  next
    case (Some w)
    then obtain n where "TrimRight (take (length s - length w) s) =
        take n (take (length s - length w) s)"
      using 1 by blast
    then have "TrimRight s = take (min n (length s - length w)) s"
      using Some by (subst TrimRight.simps) (simp add: min.commute)
    then show ?thesis by blast
  qed
qed

lemma leadingSpace_None_hd:
  assumes "leadingSpace s = None" and "s \<noteq> []"
  shows "hd s \<noteq> CHR '' ''"
proof -
  have "[CHR '' ''] \<in> set whiteSpace" by (simp add: whiteSpace_def)
  then have "take (length [CHR '' '']) s \<noteq> [CHR '' '']"
    using assms(1) unfolding leadingSpace_def find_None_iff by blast
  then show ?thesis using assms(2) by (cases s) auto
qed

lemma trailingSpace_None_last:
  assumes "trailingSpace s = None" and "s \<noteq> []"
  shows "last s \<noteq> CHR '' ''"
proof -
  have "[CHR '' ''] \<in> set whiteSpace" by (simp add: whiteSpace_def)
  then have "drop (length s - length [CHR '' '']) s \<noteq> [CHR '' '']"
    using assms(1) unfolding trailingSpace_def find_None_iff by blast
  moreover have "drop (length s - 1) s = [last s]"
  proof -
    have "s = butlast s @ [last s]" using assms(2) by simp
    then have "drop (length (butlast s)) s = [last s]" by (metis append_eq_conv_conj)
    then show ?thesis by simp
  qed
  ultimately show ?thesis by simp
qed

lemma TrimSpace_ends:
  assumes "strings_TrimSpace l \<noteq> []"
  shows "hd (strings_TrimSpace l) \<noteq> CHR '' '' \<and> last (strings_TrimSpace l) \<noteq> CHR '' ''"
proof -
  obtain n where n: "strings_TrimSpace l = take n (TrimLeft l)"
    using TrimRight_prefix [of "TrimLeft l"] by (auto simp: strings_TrimSpace_def)
  have ne: "TrimLeft l \<noteq> []" "n \<noteq> 0" using assms n by auto
  have "hd (strings_TrimSpace l) = hd (TrimLeft l)" using n ne by (simp add: hd_take)
  then have 1: "hd (strings_TrimSpace l) \<noteq> CHR '' ''"
    using leadingSpace_None_hd [OF TrimLeft_no_leading ne(1)] by simp
  have 2: "last (strings_TrimSpace l) \<noteq> CHR '' ''"
    using trailingSpace_None_last [of "strings_TrimSpace l"] assms TrimRight_no_trailing
    by (simp add: strings_TrimSpace_def)
  show ?thesis using 1 2 by simp
qed

lemma hd_Split: "s \<noteq> [] \<Longrightarrow> hd s \<noteq> sep \<Longrightarrow> hd (strings_Split s sep) \<noteq> []"
  by (cases s) (auto split: list.splits)

lemma last_Split: "s \<noteq> [] \<Longrightarrow> last s \<noteq> sep \<Longrightarrow> last (strings_Split s sep) \<noteq> []"
proof (induction s)
  case Nil then show ?case by simp
next
  case (Cons c cs)
  obtain x xs where sp: "strings_Split cs sep = x # xs"
    using Split_nonempty [of cs sep] by (cases "strings_Split cs sep") auto
  show ?case
  proof (cases "cs = []")
    case True then show ?thesis using Cons.prems by simp
  next
    case False
    then have "last (strings_Split cs sep) \<noteq> []" using Cons by simp
    then show ?thesis using sp by (auto split: if_splits)
  qed
qed

lemma two_nonempty_fields:
  assumes "hd xs \<noteq> []" and "last xs \<noteq> []" and "2 \<le> length xs"
  shows "2 \<le> length (filter (\<lambda>x. x \<noteq> []) xs)"
proof -
  obtain a ys where xs: "xs = a # ys" "ys \<noteq> []"
    using assms(3) by (auto simp: numeral_2_eq_2 Suc_le_length_iff)
  then have "last ys \<in> set ys \<and> last ys \<noteq> []" using assms(2) by simp
  then have "filter (\<lambda>x. x \<noteq> []) ys \<noteq> []" by (auto simp: filter_empty_conv)
  then have "1 \<le> length (filter (\<lambda>x. x \<noteq> []) ys)"
    by (cases "filter (\<lambda>x. x \<noteq> []) ys") auto
  then show ?thesis using xs assms(1) by simp
qed

lemma one_field_iff:
  "fieldsOf l = [f] \<longleftrightarrow>
   (strings_Split (strings_TrimSpace l) CHR '' '' = [f] \<and> f \<noteq> [])"
proof
  assume "strings_Split (strings_TrimSpace l) CHR '' '' = [f] \<and> f \<noteq> []"
  then show "fieldsOf l = [f]" by (simp add: fieldsOf_def)
next
  assume a: "fieldsOf l = [f]"
  let ?t = "strings_TrimSpace l"
  let ?xs = "strings_Split ?t CHR '' ''"
  have tne: "?t \<noteq> []" using a by (auto simp: fieldsOf_def)
  then have ends: "hd ?xs \<noteq> []" "last ?xs \<noteq> []"
    using TrimSpace_ends [of l] by (simp_all add: hd_Split last_Split)
  have "\<not> 2 \<le> length ?xs"
    using two_nonempty_fields [OF ends] a by (auto simp: fieldsOf_def)
  moreover have "?xs \<noteq> []" by (rule Split_nonempty)
  ultimately obtain x where x: "?xs = [x]" by (cases ?xs) (auto simp: Suc_le_eq)
  then show "?xs = [f] \<and> f \<noteq> []" using a ends by (auto simp: fieldsOf_def)
qed

lemma newDiskLine_fset:
  "fset (newDiskLine S l) = fset S \<union> {f. fieldsOf l = [f]}"
proof -
  let ?xs = "strings_Split (strings_TrimSpace l) CHR '' ''"
  show ?thesis
  proof (cases "length ?xs = 1 \<and> length (?xs ! 0) > 0")
    case True
    then obtain x where x: "?xs = [x]" "x \<noteq> []" by (cases ?xs) auto
    then have "{f. fieldsOf l = [f]} = {x}" by (auto simp: one_field_iff)
    then show ?thesis using x by (simp add: newDiskLine_def)
  next
    case False
    then have "{f. fieldsOf l = [f]} = {}" by (auto simp: one_field_iff)
    then show ?thesis using False by (auto simp: newDiskLine_def Let_def)
  qed
qed

lemma newDiskLines_fset:
  "fset (foldl newDiskLine S ls) = fset S \<union> {f. \<exists>l \<in> set ls. fieldsOf l = [f]}"
  by (induction ls arbitrary: S) (auto simp: newDiskLine_fset)

text \<open>
  Claim C2, as the code has it. For every input text, the set that \<open>findNewDisks\<close>
  returns holds exactly the strings that are the only non-empty field of some line: a
  line with exactly one non-empty field contributes that field, and a line with no
  non-empty field, or with a non-empty second field, contributes nothing. So a device
  is in the set only through a line that consists of its name alone.
\<close>

theorem findNewDisks_devices:
  "fset (fst (findNewDisks content)) =
     {f. \<exists>line \<in> set (strings_Split content CHR 0x0A). fieldsOf line = [f]}"
  by (simp add: findNewDisks_def newDiskLines_fset)

text \<open>
  The claim as it was stated ends: no device whose line carries a non-empty mount point
  ever appears in the set. That fails for a device that is listed twice, once with and
  once without a mount point: the mounted line contributes nothing, and the other line
  puts the device in the set.
\<close>

lemma TrimSpace_sda: "strings_TrimSpace ''sda'' = ''sda''"
  by (simp add: strings_TrimSpace_def TrimLeft.simps TrimRight.simps leadingSpace_def
      trailingSpace_def whiteSpace_def)

lemma TrimSpace_sda_mnt: "strings_TrimSpace ''sda /mnt'' = ''sda /mnt''"
  by (simp add: strings_TrimSpace_def TrimLeft.simps TrimRight.simps leadingSpace_def
      trailingSpace_def whiteSpace_def)

theorem findNewDisks_mounted_line_device_listed:
  "strings_Split (''sda'' @ [CHR 0x0A] @ ''sda /mnt'') CHR 0x0A = [''sda'', ''sda /mnt'']
   \<and> strings_Split (strings_TrimSpace ''sda /mnt'') CHR '' '' = [''sda'', ''/mnt'']
   \<and> ''sda'' |\<in>| fst (findNewDisks (''sda'' @ [CHR 0x0A] @ ''sda /mnt''))"
  by (simp add: findNewDisks_def newDiskLine_def TrimSpace_sda TrimSpace_sda_mnt)

end
